theory Spec2Isabelle
  imports Complex_Main
begin

section \<open>Data model\<close>

text \<open>
  The dataclasses of \<^verbatim>\<open>models/\<close> and \<^verbatim>\<open>genetic_algorithm/gene.py\<close>.
  Python's \<^verbatim>\<open>int\<close> is \<^typ>\<open>int\<close>, \<^verbatim>\<open>str\<close> is \<^typ>\<open>string\<close>,
  \<^verbatim>\<open>Optional[T]\<close> is \<^typ>\<open>'a option\<close>. The fields of a gene keep the source's names;
  the fields of the catalog records carry a prefix, because a gene and a catalog record
  share field names (\<^verbatim>\<open>teacher_id\<close>, \<^verbatim>\<open>group_id\<close>, \<^verbatim>\<open>day\<close>, ...).
\<close>

record gene =
  group_id :: int
  day :: string
  period :: int
  timeslot_id :: int
  course_id :: int
  teacher_id :: int
  room_id :: int
  is_fixed :: "bool option"

record teacher =
  t_teacher_id :: int
  t_name :: string
  t_preferred_times :: "(string \<times> int) list"

record student_group =
  sg_group_id :: int
  sg_name :: string
  sg_home_room :: "int option"

record room =
  r_room_id :: int
  r_name :: string

record course =
  c_course_id :: int
  c_name :: string

record timeslot =
  ts_slot_id :: int
  ts_day :: string
  ts_period :: int

text \<open>A chromosome is its list of genes (\<^verbatim>\<open>Chromosome.genes\<close>).\<close>

type_synonym chromosome = "gene list"

text \<open>The exceptions the modelled code can raise.\<close>

datatype py_error = ValueError | KeyError | IndexError | OverflowError

section \<open>Gene construction\<close>

definition valid_days :: "string list" where
  "valid_days = [''Monday'', ''Tuesday'', ''Wednesday'', ''Thursday'', ''Friday'']"

text \<open>
  \<^verbatim>\<open>Gene(...)\<close>: the dataclass stores the eight fields, then \<^verbatim>\<open>__post_init__\<close>
  raises \<^verbatim>\<open>ValueError\<close> when \<^verbatim>\<open>period < 1\<close>, and otherwise when the day is not one
  of the five weekdays.
\<close>

definition Gene ::
  "int \<Rightarrow> string \<Rightarrow> int \<Rightarrow> int \<Rightarrow> int \<Rightarrow> int \<Rightarrow> int \<Rightarrow> bool option \<Rightarrow> py_error + gene" where
  "Gene g d p ts c t r f =
     (let self = \<lparr>group_id = g, day = d, period = p, timeslot_id = ts, course_id = c,
                  teacher_id = t, room_id = r, is_fixed = f\<rparr>
      in if period self < 1 then Inl ValueError
         else if day self \<notin> set valid_days then Inl ValueError
         else Inr self)"

section \<open>The random source\<close>

text \<open>
  The module-level generator of \<^verbatim>\<open>random\<close> is threaded through explicitly. Its state is
  the infinite tape of raw outcomes still to come; each call consumes one cell.
  \<^verbatim>\<open>random.random()\<close> returns a multiple of \<open>2\<^sup>-\<^sup>5\<^sup>3\<close> in \<open>[0, 1)\<close>,
  \<^verbatim>\<open>random.randint(a, b)\<close> returns \<open>a + k\<close> for some \<open>k < b - a + 1\<close> (and raises
  \<^verbatim>\<open>ValueError\<close> on an empty range), \<^verbatim>\<open>random.choice(xs)\<close> returns \<open>xs[k]\<close> for
  some \<open>k < len(xs)\<close> (and raises \<^verbatim>\<open>IndexError\<close> on an empty sequence). Every
  sequence of outcomes is the behaviour of some tape.
\<close>

type_synonym rng = "nat \<Rightarrow> nat"

definition rng_next :: "rng \<Rightarrow> nat \<times> rng" where
  "rng_next r = (r 0, \<lambda>n. r (Suc n))"

definition random_random :: "rng \<Rightarrow> real \<times> rng" where
  "random_random r =
     (case rng_next r of (k, r') \<Rightarrow> (real (k mod 9007199254740992) / 9007199254740992, r'))"

definition random_randint :: "int \<Rightarrow> int \<Rightarrow> rng \<Rightarrow> py_error + (int \<times> rng)" where
  "random_randint a b r =
     (if b < a then Inl ValueError
      else case rng_next r of (k, r') \<Rightarrow> Inr (a + int (k mod nat (b - a + 1)), r'))"

definition random_choice :: "'a list \<Rightarrow> rng \<Rightarrow> py_error + ('a \<times> rng)" where
  "random_choice xs r =
     (if xs = [] then Inl IndexError
      else case rng_next r of (k, r') \<Rightarrow> Inr (xs ! (k mod length xs), r'))"

section \<open>Crossover\<close>

text \<open>
  \<^verbatim>\<open>crossover(ind1, ind2)\<close>. The right-hand side of the slice assignment is evaluated
  first (\<^verbatim>\<open>ind2.genes[cxpoint:]\<close>, then \<^verbatim>\<open>ind1.genes[cxpoint:]\<close>), then the two slices
  are assigned. Assigning to \<^verbatim>\<open>xs[c:]\<close> keeps the first \<open>c\<close> elements of \<open>xs\<close> (all of
  them when \<open>xs\<close> is shorter) and puts the new tail after them. The result is the two
  gene lists after the call, the exception raised if any, and the generator.
\<close>

definition crossover ::
  "chromosome \<Rightarrow> chromosome \<Rightarrow> rng \<Rightarrow> (chromosome \<times> chromosome) \<times> py_error option \<times> rng" where
  "crossover ind1 ind2 r =
     (let size1 = int (length ind1)
      in if size1 < 2 then ((ind1, ind2), None, r)
         else case random_randint 1 (size1 - 1) r of
                Inl e \<Rightarrow> ((ind1, ind2), Some e, r)
              | Inr (cxpoint, r') \<Rightarrow>
                  (let c = nat cxpoint;
                       tail2 = drop c ind2;
                       tail1 = drop c ind1
                   in ((take c ind1 @ tail2, take c ind2 @ tail1), None, r')))"

section \<open>Dictionaries\<close>

text \<open>
  A Python \<^verbatim>\<open>dict\<close> is an association list in insertion order, with at most one
  entry per key. \<open>dict_upd_default k z f d\<close> is the read-modify-write on one key with a
  default for a missing key: \<^verbatim>\<open>d[k] = f(d.get(k, z))\<close>, which is also
  \<^verbatim>\<open>d.setdefault(k, z)\<close> followed by an in-place change \<open>f\<close> of the entry. An existing
  key keeps its position, a new key goes to the end.
\<close>

fun dict_upd_default :: "'k \<Rightarrow> 'v \<Rightarrow> ('v \<Rightarrow> 'v) \<Rightarrow> ('k \<times> 'v) list \<Rightarrow> ('k \<times> 'v) list" where
  "dict_upd_default k z f [] = [(k, f z)]"
| "dict_upd_default k z f ((k', v) # ps) =
     (if k' = k then (k', f v) # ps else (k', v) # dict_upd_default k z f ps)"

definition dict_get :: "('k \<times> 'v) list \<Rightarrow> 'k \<Rightarrow> 'v \<Rightarrow> 'v" where
  "dict_get d k z = (case map_of d k of None \<Rightarrow> z | Some v \<Rightarrow> v)"

definition dict_values :: "('k \<times> 'v) list \<Rightarrow> 'v list" where
  "dict_values d = map snd d"

text \<open>The counting loop \<^verbatim>\<open>for x in xs: d[key(x)] = d.get(key(x), 0) + 1\<close>.\<close>

definition tally :: "('a \<Rightarrow> 'k) \<Rightarrow> 'a list \<Rightarrow> ('k \<times> int) list" where
  "tally key xs = foldl (\<lambda>d x. dict_upd_default (key x) 0 (\<lambda>c. c + 1) d) [] xs"

text \<open>
  The summing loop \<^verbatim>\<open>for count in d.values(): if count > 1: penalty += 1000 * (count - 1)\<close>,
  started at \<open>0\<close>.
\<close>

definition excess_penalty :: "int list \<Rightarrow> int" where
  "excess_penalty counts =
     foldl (\<lambda>penalty count. if count > 1 then penalty + 1000 * (count - 1) else penalty) 0 counts"

section \<open>Fitness: the penalty terms\<close>

subsection \<open>Hard constraints\<close>

text \<open>The dictionary keys of the three conflict counts.\<close>

definition teacher_key :: "gene \<Rightarrow> int \<times> string \<times> int" where
  "teacher_key gene = (teacher_id gene, day gene, period gene)"

definition room_key :: "gene \<Rightarrow> int \<times> string \<times> int" where
  "room_key gene = (room_id gene, day gene, period gene)"

definition group_key :: "gene \<Rightarrow> int \<times> string \<times> int" where
  "group_key gene = (group_id gene, day gene, period gene)"

definition penalty_teacher_conflict :: "chromosome \<Rightarrow> real" where
  "penalty_teacher_conflict individual =
     (let teacher_conflicts = tally teacher_key individual
      in real_of_int (excess_penalty (dict_values teacher_conflicts)))"

definition penalty_room_conflict :: "chromosome \<Rightarrow> real" where
  "penalty_room_conflict individual =
     (let room_conflicts = tally room_key individual
      in real_of_int (excess_penalty (dict_values room_conflicts)))"

definition penalty_group_conflict :: "chromosome \<Rightarrow> real" where
  "penalty_group_conflict individual =
     (let group_conflicts = tally group_key individual
      in real_of_int (excess_penalty (dict_values group_conflicts)))"

subsection \<open>Soft constraints\<close>

text \<open>
  \<^verbatim>\<open>next((t.preferred_times for t in teachers if t.teacher_id == gene.teacher_id), [])\<close>:
  the preferred times of the first teacher with that id, the empty list when there is none.
\<close>

definition teacher_pref :: "teacher list \<Rightarrow> int \<Rightarrow> (string \<times> int) list" where
  "teacher_pref teachers tid =
     (case find (\<lambda>t. t_teacher_id t = tid) teachers of
        None \<Rightarrow> [] | Some t \<Rightarrow> t_preferred_times t)"

definition penalty_teacher_time_preference :: "chromosome \<Rightarrow> teacher list \<Rightarrow> real" where
  "penalty_teacher_time_preference individual teachers =
     foldl (\<lambda>penalty gene.
              if (day gene, period gene) \<notin> set (teacher_pref teachers (teacher_id gene))
              then penalty + 1 else penalty) 0 individual"

definition penalty_teacher_workload_balance :: "chromosome \<Rightarrow> real" where
  "penalty_teacher_workload_balance individual =
     (let teacher_assignments = tally teacher_id individual
      in if teacher_assignments \<noteq> [] then
           (let avg_load = real_of_int (sum_list (dict_values teacher_assignments))
                             / real (length teacher_assignments)
            in foldl (\<lambda>penalty load. penalty + \<bar>real_of_int load - avg_load\<bar>) 0
                 (dict_values teacher_assignments))
         else 0)"

text \<open>
  \<^verbatim>\<open>next((g.home_room for g in groups if g.group_id == gene.group_id), None)\<close>.
\<close>

definition group_home :: "student_group list \<Rightarrow> int \<Rightarrow> int option" where
  "group_home groups gid =
     (case find (\<lambda>g. sg_group_id g = gid) groups of
        None \<Rightarrow> None | Some g \<Rightarrow> sg_home_room g)"

definition penalty_group_home_room :: "chromosome \<Rightarrow> student_group list \<Rightarrow> real" where
  "penalty_group_home_room individual groups =
     foldl (\<lambda>penalty gene.
              (case group_home groups (group_id gene) of
                 None \<Rightarrow> penalty
               | Some h \<Rightarrow> if room_id gene \<noteq> h then penalty + 1 else penalty)) 0 individual"

subsection \<open>Additional constraints\<close>

text \<open>
  The inner loop of \<^verbatim>\<open>penalty_subject_distribution\<close> over a sorted list of periods:
  \<^verbatim>\<open>for i in range(1, len(periods)): if periods[i] == periods[i - 1] + 1: penalty += 0.5\<close>.
\<close>

fun consecutive_penalty :: "int list \<Rightarrow> real" where
  "consecutive_penalty (a # b # ps) =
     (if b = a + 1 then 0.5 else 0) + consecutive_penalty (b # ps)"
| "consecutive_penalty ps = 0"

definition penalty_subject_distribution :: "chromosome \<Rightarrow> real" where
  "penalty_subject_distribution individual =
     (let teacher_schedule =
            foldl (\<lambda>d gene.
                     dict_upd_default (teacher_id gene) []
                       (dict_upd_default (day gene) [] (\<lambda>ps. ps @ [period gene])) d)
                  [] individual
      in sum_list (map (\<lambda>day_dict.
                          sum_list (map (\<lambda>periods. consecutive_penalty (sort periods))
                                        (dict_values day_dict)))
                       (dict_values teacher_schedule)))"

text \<open>
  \<^verbatim>\<open>Chromosome.to_timetable\<close>: genes grouped by group, then by day, each list then
  sorted by period (\<^verbatim>\<open>list.sort\<close> is stable, as \<open>sort_key\<close> is).
\<close>

definition to_timetable :: "chromosome \<Rightarrow> (int \<times> (string \<times> gene list) list) list" where
  "to_timetable genes =
     (let timetable =
            foldl (\<lambda>d gene.
                     dict_upd_default (group_id gene) []
                       (dict_upd_default (day gene) [] (\<lambda>gs. gs @ [gene])) d)
                  [] genes
      in map (\<lambda>(group, days). (group, map (\<lambda>(d, gs). (d, sort_key period gs)) days))
             timetable)"

text \<open>
  Python floats are modelled as real numbers, without rounding. What the model keeps of
  the floating-point arithmetic is its one exception: in \<^verbatim>\<open>i * 0.5\<close> the int \<^verbatim>\<open>i\<close> is
  first converted to a float, and the conversion raises \<^verbatim>\<open>OverflowError\<close> when
  \<^verbatim>\<open>i\<close> does not round to a finite double, that is from \<open>2^1024 - 2^970\<close> on in absolute
  value. The other ints that the evaluator combines with a float are counts of genes and
  sums of \<^verbatim>\<open>1000 * (count - 1)\<close>, bounded by a small multiple of the length of the
  chromosome; their conversion is modelled by \<open>real_of_int\<close>.
\<close>

definition int_to_float :: "int \<Rightarrow> py_error + real" where
  "int_to_float i =
     (if \<bar>i\<bar> < 2 ^ 1024 - 2 ^ 970 then Inr (real_of_int i) else Inl OverflowError)"

text \<open>
  The body of the loop over \<^verbatim>\<open>group_schedule.values()\<close> in
  \<^verbatim>\<open>penalty_group_schedule_gap\<close>, as the amount \<^verbatim>\<open>gap * 0.5\<close> it adds to the penalty.
\<close>

definition lessons_gap :: "gene list \<Rightarrow> py_error + real" where
  "lessons_gap lessons =
     (let periods = sort (map period lessons)
      in if periods \<noteq> [] then
           (let expected_slots = Max (set periods) - Min (set periods) + 1;
                actual_slots = int (length periods);
                gap = expected_slots - actual_slots
            in case int_to_float gap of
                 Inl e \<Rightarrow> Inl e
               | Inr x \<Rightarrow> Inr (x * 0.5))
         else Inr 0)"

text \<open>
  One round of the inner loop, \<^verbatim>\<open>penalty += gap * 0.5\<close>: an exception raised earlier or by
  this round ends the function.
\<close>

definition add_gap :: "py_error + real \<Rightarrow> gene list \<Rightarrow> py_error + real" where
  "add_gap acc lessons =
     (case acc of
        Inl e \<Rightarrow> Inl e
      | Inr penalty \<Rightarrow>
          (case lessons_gap lessons of
             Inl e \<Rightarrow> Inl e
           | Inr x \<Rightarrow> Inr (penalty + x)))"

definition penalty_group_schedule_gap ::
  "chromosome \<Rightarrow> student_group list \<Rightarrow> py_error + real" where
  "penalty_group_schedule_gap individual groups =
     (let timetable = to_timetable individual
      in foldl (\<lambda>acc group.
                  (let group_schedule = dict_get timetable (sg_group_id group) []
                   in foldl add_gap acc (dict_values group_schedule)))
               (Inr 0) groups)"

subsection \<open>New additional constraints\<close>

text \<open>
  The value of each key is a Python \<^verbatim>\<open>set\<close> of group ids, kept as a list without
  repetitions; \<^verbatim>\<open>s.add(x)\<close> is \<open>List.insert\<close> and \<^verbatim>\<open>len(s)\<close> its length.
\<close>

definition penalty_teacher_same_subject_across_groups :: "chromosome \<Rightarrow> real" where
  "penalty_teacher_same_subject_across_groups individual =
     (let teacher_course_groups =
            foldl (\<lambda>d gene.
                     dict_upd_default (teacher_id gene, course_id gene) []
                       (List.insert (group_id gene)) d)
                  [] individual
      in real_of_int
           (foldl (\<lambda>penalty groups_set.
                     if int (length groups_set) > 1
                     then penalty + 1000 * (int (length groups_set) - 1) else penalty)
                  0 (dict_values teacher_course_groups)))"

definition penalty_teacher_multiple_first_periods :: "chromosome \<Rightarrow> real" where
  "penalty_teacher_multiple_first_periods individual =
     (let teacher_first_periods =
            foldl (\<lambda>d gene.
                     if period gene = 1
                     then dict_upd_default (teacher_id gene) 0 (\<lambda>c. c + 1) d else d)
                  [] individual
      in real_of_int (excess_penalty (dict_values teacher_first_periods)))"

subsection \<open>Main evaluation function\<close>

text \<open>
  \<^verbatim>\<open>evaluate_timetable\<close> returns the one-element tuple \<^verbatim>\<open>(total_penalty,)\<close>; the model
  returns its element. The group schedule gap is the only term that can raise, and the
  terms computed before it have no effect besides their value.
\<close>

definition evaluate_timetable ::
  "chromosome \<Rightarrow> teacher list \<Rightarrow> student_group list \<Rightarrow> py_error + real" where
  "evaluate_timetable individual teachers groups =
     (case penalty_group_schedule_gap individual groups of
        Inl e \<Rightarrow> Inl e
      | Inr group_schedule_gap \<Rightarrow>
          Inr (0 + penalty_teacher_conflict individual
                 + penalty_room_conflict individual
                 + penalty_group_conflict individual
                 + penalty_teacher_time_preference individual teachers
                 + penalty_teacher_workload_balance individual
                 + penalty_group_home_room individual groups
                 + penalty_subject_distribution individual
                 + group_schedule_gap
                 + penalty_teacher_same_subject_across_groups individual
                 + penalty_teacher_multiple_first_periods individual))"

section \<open>Configuration\<close>

text \<open>
  The two fields of \<^verbatim>\<open>SchedulingConfig\<close> that describe the timetable domain, and their
  defaults (\<^verbatim>\<open>list(range(1, 7))\<close> is \<open>[1, 2, 3, 4, 5, 6]\<close>).
\<close>

record scheduling_config =
  DAYS_OF_WEEK :: "string list"
  PERIODS_PER_DAY :: "int list"

definition default_config :: scheduling_config where
  "default_config =
     \<lparr>DAYS_OF_WEEK = [''Monday'', ''Tuesday'', ''Wednesday'', ''Thursday'', ''Friday''],
      PERIODS_PER_DAY = [1, 2, 3, 4, 5, 6]\<rparr>"

section \<open>Mutation\<close>

text \<open>
  \<^verbatim>\<open>mutation\<close> changes the genes in place and can raise in the middle of the loop, so
  every step returns the gene as it stands, the exception raised if any, and the
  generator. The locals \<^verbatim>\<open>days\<close> and \<^verbatim>\<open>periods\<close> are the literals of the source.
\<close>

definition mutation_days :: "string list" where
  "mutation_days = [''Monday'', ''Tuesday'', ''Wednesday'', ''Thursday'', ''Friday'']"

definition mutation_periods :: "int list" where
  "mutation_periods = [1, 2, 3]"

text \<open>\<^verbatim>\<open>{(ts.day, ts.period): ts.slot_id for ts in timeslots}\<close>: a later slot overwrites.\<close>

definition timeslot_map :: "timeslot list \<Rightarrow> ((string \<times> int) \<times> int) list" where
  "timeslot_map timeslots =
     foldl (\<lambda>d ts. dict_upd_default (ts_day ts, ts_period ts) 0 (\<lambda>_. ts_slot_id ts) d)
           [] timeslots"

type_synonym gene_step = "gene \<Rightarrow> rng \<Rightarrow> gene \<times> py_error option \<times> rng"

definition mutate_teacher :: "teacher list \<Rightarrow> real \<Rightarrow> gene_step" where
  "mutate_teacher teachers indpb gene r =
     (case random_random r of (u, r1) \<Rightarrow>
        if u < indpb then
          (case random_choice teachers r1 of
             Inl e \<Rightarrow> (gene, Some e, r1)
           | Inr (t, r2) \<Rightarrow> (gene\<lparr>teacher_id := t_teacher_id t\<rparr>, None, r2))
        else (gene, None, r1))"

definition mutate_course :: "course list \<Rightarrow> real \<Rightarrow> gene_step" where
  "mutate_course courses indpb gene r =
     (case random_random r of (u, r1) \<Rightarrow>
        if u < indpb then
          (case random_choice courses r1 of
             Inl e \<Rightarrow> (gene, Some e, r1)
           | Inr (c, r2) \<Rightarrow> (gene\<lparr>course_id := c_course_id c\<rparr>, None, r2))
        else (gene, None, r1))"

definition mutate_room :: "room list \<Rightarrow> real \<Rightarrow> gene_step" where
  "mutate_room rooms indpb gene r =
     (case random_random r of (u, r1) \<Rightarrow>
        if u < indpb then
          (case random_choice rooms r1 of
             Inl e \<Rightarrow> (gene, Some e, r1)
           | Inr (rm, r2) \<Rightarrow> (gene\<lparr>room_id := r_room_id rm\<rparr>, None, r2))
        else (gene, None, r1))"

text \<open>
  The fourth sub-mutation. \<^verbatim>\<open>gene.day\<close> and \<^verbatim>\<open>gene.period\<close> are assigned before
  \<^verbatim>\<open>timeslot_map[(gene.day, gene.period)]\<close> is looked up, so a \<^verbatim>\<open>KeyError\<close> leaves the gene
  with its new day and period and its old \<^verbatim>\<open>timeslot_id\<close>.
\<close>

definition mutate_time :: "((string \<times> int) \<times> int) list \<Rightarrow> real \<Rightarrow> gene_step" where
  "mutate_time tmap indpb gene r =
     (case random_random r of (u, r1) \<Rightarrow>
        if u < indpb then
          (case random_choice mutation_days r1 of
             Inl e \<Rightarrow> (gene, Some e, r1)
           | Inr (d, r2) \<Rightarrow>
               (case random_choice mutation_periods r2 of
                  Inl e \<Rightarrow> (gene\<lparr>day := d\<rparr>, Some e, r2)
                | Inr (p, r3) \<Rightarrow>
                    (case map_of tmap (d, p) of
                       None \<Rightarrow> (gene\<lparr>day := d, period := p\<rparr>, Some KeyError, r3)
                     | Some slot \<Rightarrow>
                         (gene\<lparr>day := d, period := p, timeslot_id := slot\<rparr>, None, r3))))
        else (gene, None, r1))"

text \<open>Statements in sequence: the next one runs unless the previous one raised.\<close>

definition and_then :: "gene \<times> py_error option \<times> rng \<Rightarrow> gene_step \<Rightarrow> gene \<times> py_error option \<times> rng" where
  "and_then res f =
     (case res of (g, Some e, r) \<Rightarrow> (g, Some e, r) | (g, None, r) \<Rightarrow> f g r)"

definition mutate_gene ::
  "teacher list \<Rightarrow> room list \<Rightarrow> course list \<Rightarrow> ((string \<times> int) \<times> int) list \<Rightarrow> real \<Rightarrow> gene_step" where
  "mutate_gene teachers rooms courses tmap indpb gene r =
     and_then (and_then (and_then (mutate_teacher teachers indpb gene r)
                                  (mutate_course courses indpb))
                        (mutate_room rooms indpb))
              (mutate_time tmap indpb)"

text \<open>
  \<^verbatim>\<open>for gene in individual.genes\<close>: when a step raises, the genes after it are untouched.
\<close>

fun mutation_loop :: "gene_step \<Rightarrow> gene list \<Rightarrow> rng \<Rightarrow> gene list \<times> py_error option \<times> rng" where
  "mutation_loop step [] r = ([], None, r)"
| "mutation_loop step (gene # genes) r =
     (case step gene r of
        (g', Some e, r') \<Rightarrow> (g' # genes, Some e, r')
      | (g', None, r') \<Rightarrow>
          (case mutation_loop step genes r' of (gs', e, r'') \<Rightarrow> (g' # gs', e, r'')))"

definition mutation ::
  "chromosome \<Rightarrow> teacher list \<Rightarrow> room list \<Rightarrow> course list \<Rightarrow> timeslot list \<Rightarrow> real \<Rightarrow> rng
     \<Rightarrow> chromosome \<times> py_error option \<times> rng" where
  "mutation individual teachers rooms courses timeslots indpb r =
     mutation_loop (mutate_gene teachers rooms courses (timeslot_map timeslots) indpb)
       individual r"

section \<open>Repair\<close>

text \<open>
  \<^verbatim>\<open>min(xs, key=f)\<close> returns the first element with the least key; on an empty sequence
  it raises \<^verbatim>\<open>ValueError\<close> (\<open>None\<close> here).
\<close>

fun min_by :: "('a \<Rightarrow> int) \<Rightarrow> 'a list \<Rightarrow> 'a option" where
  "min_by f [] = None"
| "min_by f (x # xs) =
     (case min_by f xs of None \<Rightarrow> Some x | Some y \<Rightarrow> if f y < f x then Some y else Some x)"

text \<open>
  \<^verbatim>\<open>min(xs, key=lambda i: load[i])\<close>: the key function raises \<^verbatim>\<open>KeyError\<close> for an id that
  the dictionary does not hold.
\<close>

definition min_by_load :: "(int \<times> int) list \<Rightarrow> int list \<Rightarrow> py_error + int" where
  "min_by_load load xs =
     (if xs = [] then Inl ValueError
      else if list_ex (\<lambda>x. map_of load x = None) xs then Inl KeyError
      else case min_by (\<lambda>x. dict_get load x 0) xs of
             None \<Rightarrow> Inl ValueError | Some best \<Rightarrow> Inr best)"

type_synonym schedule = "((string \<times> int) \<times> int list) list"

definition teacher_load_init :: "teacher list \<Rightarrow> (int \<times> int) list" where
  "teacher_load_init teachers =
     foldl (\<lambda>d t. dict_upd_default (t_teacher_id t) 0 (\<lambda>_. 0) d) [] teachers"

definition teacher_preferences_init :: "teacher list \<Rightarrow> (int \<times> (string \<times> int) list) list" where
  "teacher_preferences_init teachers =
     foldl (\<lambda>d t. dict_upd_default (t_teacher_id t) [] (\<lambda>_. t_preferred_times t) d) [] teachers"

text \<open>The body of the loop of \<^verbatim>\<open>_resolve_teacher_conflicts\<close> for one gene.\<close>

definition resolve_teacher_step ::
  "teacher list \<Rightarrow> (int \<times> (string \<times> int) list) list \<Rightarrow> gene \<Rightarrow> schedule \<times> (int \<times> int) list
     \<Rightarrow> py_error + (gene \<times> schedule \<times> (int \<times> int) list)" where
  "resolve_teacher_step teachers teacher_preferences gene st =
     (case st of (teacher_schedule0, teacher_load) \<Rightarrow>
        (let key = (day gene, period gene);
             teacher_schedule = dict_upd_default key [] (\<lambda>v. v) teacher_schedule0
         in if teacher_id gene \<in> set (dict_get teacher_schedule key []) then
              (let available_teachers =
                     map t_teacher_id
                       (filter (\<lambda>t. t_teacher_id t \<notin> set (dict_get teacher_schedule key []))
                          teachers)
               in if available_teachers \<noteq> [] then
                    (let preferred_available =
                           filter (\<lambda>tid. key \<in> set (dict_get teacher_preferences tid []))
                             available_teachers
                     in case min_by_load teacher_load
                               (if preferred_available \<noteq> [] then preferred_available
                                else available_teachers) of
                          Inl e \<Rightarrow> Inl e
                        | Inr best_teacher \<Rightarrow>
                            Inr (gene\<lparr>teacher_id := best_teacher\<rparr>,
                                 dict_upd_default key [] (\<lambda>v. v @ [best_teacher]) teacher_schedule,
                                 dict_upd_default best_teacher 0 (\<lambda>c. c + 1) teacher_load))
                  else Inr (gene,
                            dict_upd_default key [] (\<lambda>v. v @ [teacher_id gene]) teacher_schedule,
                            teacher_load))
            else Inr (gene,
                      dict_upd_default key [] (\<lambda>v. v @ [teacher_id gene]) teacher_schedule,
                      teacher_load)))"

fun resolve_teacher_loop ::
  "teacher list \<Rightarrow> (int \<times> (string \<times> int) list) list \<Rightarrow> gene list \<Rightarrow> schedule \<times> (int \<times> int) list
     \<Rightarrow> py_error + gene list" where
  "resolve_teacher_loop teachers prefs [] st = Inr []"
| "resolve_teacher_loop teachers prefs (gene # genes) st =
     (case resolve_teacher_step teachers prefs gene st of
        Inl e \<Rightarrow> Inl e
      | Inr (g', st') \<Rightarrow>
          (case resolve_teacher_loop teachers prefs genes st' of
             Inl e \<Rightarrow> Inl e | Inr gs' \<Rightarrow> Inr (g' # gs')))"

definition resolve_teacher_conflicts :: "chromosome \<Rightarrow> teacher list \<Rightarrow> py_error + chromosome" where
  "resolve_teacher_conflicts individual teachers =
     resolve_teacher_loop teachers (teacher_preferences_init teachers) individual
       ([], teacher_load_init teachers)"

definition room_usage_init :: "room list \<Rightarrow> (int \<times> int) list" where
  "room_usage_init rooms =
     foldl (\<lambda>d rm. dict_upd_default (r_room_id rm) 0 (\<lambda>_. 0) d) [] rooms"

text \<open>The body of the loop of \<^verbatim>\<open>_resolve_room_conflicts\<close> for one gene.\<close>

definition resolve_room_step ::
  "room list \<Rightarrow> gene \<Rightarrow> schedule \<times> (int \<times> int) list
     \<Rightarrow> py_error + (gene \<times> schedule \<times> (int \<times> int) list)" where
  "resolve_room_step rooms gene st =
     (case st of (room_schedule0, room_usage) \<Rightarrow>
        (let key = (day gene, period gene);
             room_schedule = dict_upd_default key [] (\<lambda>v. v) room_schedule0
         in if room_id gene \<in> set (dict_get room_schedule key []) then
              (let available_rooms =
                     map r_room_id
                       (filter (\<lambda>rm. r_room_id rm \<notin> set (dict_get room_schedule key [])) rooms)
               in if available_rooms \<noteq> [] then
                    (case min_by_load room_usage available_rooms of
                       Inl e \<Rightarrow> Inl e
                     | Inr best_room \<Rightarrow>
                         Inr (gene\<lparr>room_id := best_room\<rparr>,
                              dict_upd_default key [] (\<lambda>v. v @ [best_room]) room_schedule,
                              dict_upd_default best_room 0 (\<lambda>c. c + 1) room_usage))
                  else Inr (gene,
                            dict_upd_default key [] (\<lambda>v. v @ [room_id gene]) room_schedule,
                            room_usage))
            else Inr (gene,
                      dict_upd_default key [] (\<lambda>v. v @ [room_id gene]) room_schedule,
                      room_usage)))"

fun resolve_room_loop ::
  "room list \<Rightarrow> gene list \<Rightarrow> schedule \<times> (int \<times> int) list \<Rightarrow> py_error + gene list" where
  "resolve_room_loop rooms [] st = Inr []"
| "resolve_room_loop rooms (gene # genes) st =
     (case resolve_room_step rooms gene st of
        Inl e \<Rightarrow> Inl e
      | Inr (g', st') \<Rightarrow>
          (case resolve_room_loop rooms genes st' of
             Inl e \<Rightarrow> Inl e | Inr gs' \<Rightarrow> Inr (g' # gs')))"

definition resolve_room_conflicts :: "chromosome \<Rightarrow> room list \<Rightarrow> py_error + chromosome" where
  "resolve_room_conflicts individual rooms =
     resolve_room_loop rooms individual ([], room_usage_init rooms)"

text \<open>
  \<^verbatim>\<open>_resolve_group_conflicts\<close>: \<^verbatim>\<open>group_schedule\<close> maps the keys seen so far to
  \<^verbatim>\<open>True\<close>; \<^verbatim>\<open>key in group_schedule\<close> asks whether the key has an entry.
\<close>

fun resolve_group_loop ::
  "gene list \<Rightarrow> ((int \<times> string \<times> int) \<times> bool) list \<Rightarrow> rng \<Rightarrow> py_error + (gene list \<times> rng)" where
  "resolve_group_loop [] group_schedule r = Inr ([], r)"
| "resolve_group_loop (gene # genes) group_schedule r =
     (let key = group_key gene
      in case (if map_of group_schedule key \<noteq> None
               then (case random_randint 1 3 r of
                       Inl e \<Rightarrow> Inl e
                     | Inr (c, r') \<Rightarrow> Inr (gene\<lparr>course_id := c\<rparr>, r'))
               else Inr (gene, r)) of
           Inl e \<Rightarrow> Inl e
         | Inr (g', r') \<Rightarrow>
             (case resolve_group_loop genes
                     (dict_upd_default key True (\<lambda>_. True) group_schedule) r' of
                Inl e \<Rightarrow> Inl e
              | Inr (gs', r'') \<Rightarrow> Inr (g' # gs', r'')))"

definition resolve_group_conflicts :: "chromosome \<Rightarrow> rng \<Rightarrow> py_error + (chromosome \<times> rng)" where
  "resolve_group_conflicts individual r = resolve_group_loop individual [] r"

definition repair_timetable ::
  "chromosome \<Rightarrow> teacher list \<Rightarrow> room list \<Rightarrow> rng \<Rightarrow> py_error + (chromosome \<times> rng)" where
  "repair_timetable individual teachers rooms r =
     (case resolve_teacher_conflicts individual teachers of
        Inl e \<Rightarrow> Inl e
      | Inr individual1 \<Rightarrow>
          (case resolve_room_conflicts individual1 rooms of
             Inl e \<Rightarrow> Inl e
           | Inr individual2 \<Rightarrow> resolve_group_conflicts individual2 r))"

section \<open>Notions used to state the properties\<close>

text \<open>The number of elements of a list that share the key \<open>k\<close>.\<close>

definition occupancy :: "('a \<Rightarrow> 'k) \<Rightarrow> 'a list \<Rightarrow> 'k \<Rightarrow> nat" where
  "occupancy key xs k = length (filter (\<lambda>x. key x = k) xs)"

section \<open>Example data\<close>

text \<open>
  Two lessons of different groups, both with teacher 5 on Monday in period 1, in
  different rooms; a third lesson elsewhere.
\<close>

definition gene_a :: gene where
  "gene_a = \<lparr>group_id = 1, day = ''Monday'', period = 1, timeslot_id = 1, course_id = 1,
             teacher_id = 5, room_id = 1, is_fixed = Some False\<rparr>"

definition gene_b :: gene where
  "gene_b = \<lparr>group_id = 2, day = ''Monday'', period = 1, timeslot_id = 1, course_id = 2,
             teacher_id = 5, room_id = 2, is_fixed = Some False\<rparr>"

definition gene_c :: gene where
  "gene_c = \<lparr>group_id = 1, day = ''Tuesday'', period = 3, timeslot_id = 9, course_id = 3,
             teacher_id = 6, room_id = 1, is_fixed = Some False\<rparr>"

text \<open>Two teachers; teacher 5 prefers Monday period 1, teacher 6 Monday period 2.\<close>

definition teacher_5 :: teacher where
  "teacher_5 = \<lparr>t_teacher_id = 5, t_name = ''Ada'', t_preferred_times = [(''Monday'', 1)]\<rparr>"

definition teacher_6 :: teacher where
  "teacher_6 = \<lparr>t_teacher_id = 6, t_name = ''Bob'', t_preferred_times = [(''Monday'', 2)]\<rparr>"

text \<open>The fields of a gene that mutation is claimed to leave alone.\<close>

definition frame :: "gene \<Rightarrow> gene \<Rightarrow> bool" where
  "frame g g' \<longleftrightarrow> group_id g' = group_id g \<and> is_fixed g' = is_fixed g"

text \<open>A small catalog, a configuration with two periods per day, and a tape on which
  only the time sub-mutation of the first gene fires (then Monday, then period 3).\<close>

definition slot_mon_1 :: timeslot where
  "slot_mon_1 = \<lparr>ts_slot_id = 1, ts_day = ''Monday'', ts_period = 1\<rparr>"

definition slot_mon_3 :: timeslot where
  "slot_mon_3 = \<lparr>ts_slot_id = 3, ts_day = ''Monday'', ts_period = 3\<rparr>"

definition room_1 :: room where
  "room_1 = \<lparr>r_room_id = 1, r_name = ''R1''\<rparr>"

definition course_1 :: course where
  "course_1 = \<lparr>c_course_id = 1, c_name = ''Maths''\<rparr>"

definition two_period_config :: scheduling_config where
  "two_period_config =
     \<lparr>DAYS_OF_WEEK = [''Monday'', ''Tuesday'', ''Wednesday'', ''Thursday'', ''Friday''],
      PERIODS_PER_DAY = [1, 2]\<rparr>"

definition tape_time_only :: rng where
  "tape_time_only = (\<lambda>n. if n < 3 then 4503599627370496 else if n = 5 then 2 else 0)"

text \<open>A dictionary of counters has an entry for every id in a list.\<close>

definition covers :: "int list \<Rightarrow> (int \<times> int) list \<Rightarrow> bool" where
  "covers ids load \<longleftrightarrow> list_all (\<lambda>i. map_of load i \<noteq> None) ids"

text \<open>Two genes that differ at most in their teacher and room.\<close>

definition only_teacher_room :: "gene \<Rightarrow> gene \<Rightarrow> bool" where
  "only_teacher_room g g' \<longleftrightarrow> g' = g\<lparr>teacher_id := teacher_id g', room_id := room_id g'\<rparr>"

text \<open>A gene whose course was reassigned to one of 1, 2, 3 and is otherwise as before.\<close>

definition recoursed :: "gene \<Rightarrow> gene \<Rightarrow> bool" where
  "recoursed g g' \<longleftrightarrow> course_id g' \<in> {1, 2, 3} \<and> g' = g\<lparr>course_id := course_id g'\<rparr>"

definition room_2 :: room where
  "room_2 = \<lparr>r_room_id = 2, r_name = ''R2''\<rparr>"

definition gene_d :: gene where
  "gene_d = \<lparr>group_id = 1, day = ''Monday'', period = 1, timeslot_id = 1, course_id = 7,
             teacher_id = 5, room_id = 1, is_fixed = Some False\<rparr>"




text \<open>The group schedule gap as the specification words it: for each listed group and each day
  on which the group has a gene, (max period - min period + 1) minus the number of
  distinct periods, times 0.5.\<close>

definition gap_spec :: "chromosome \<Rightarrow> student_group list \<Rightarrow> real" where
  "gap_spec individual groups =
     (\<Sum>group\<leftarrow>groups.
        \<Sum>d\<leftarrow>remdups (map day (filter (\<lambda>g. group_id g = sg_group_id group) individual)).
          (let periods = map period (filter (\<lambda>g. group_id g = sg_group_id group \<and> day g = d)
                                        individual)
           in (real_of_int (Max (set periods) - Min (set periods) + 1)
                 - real (card (set periods))) * 0.5))"

text \<open>Group 1 without a home room; a second lesson of group 1 on Monday in period 2 and
  the same lesson moved to period 1, where group 1 already has \<open>gene_a\<close>; a tape on which
  only the time sub-mutation of the second gene fires (then Monday, then period 1).\<close>

definition group_1 :: student_group where
  "group_1 = \<lparr>sg_group_id = 1, sg_name = ''G1'', sg_home_room = None\<rparr>"

definition gene_g :: gene where
  "gene_g = \<lparr>group_id = 1, day = ''Monday'', period = 2, timeslot_id = 2, course_id = 2,
             teacher_id = 6, room_id = 2, is_fixed = Some False\<rparr>"

definition gene_f :: gene where
  "gene_f = \<lparr>group_id = 1, day = ''Monday'', period = 1, timeslot_id = 1, course_id = 2,
             teacher_id = 6, room_id = 2, is_fixed = Some False\<rparr>"

definition tape_second_gene :: rng where
  "tape_second_gene = (\<lambda>n. if n < 7 then 4503599627370496 else 0)"

section \<open>Properties of gene construction\<close>

text \<open>
  C7. Constructing a gene fails (with the validation error \<^verbatim>\<open>ValueError\<close>) if and only
  if \<open>period < 1\<close> or the day is not one of Monday, Tuesday, Wednesday, Thursday, Friday;
  for every other input it succeeds and the gene holds the given field values unchanged.
\<close>

theorem Gene_validation:
  "(Gene g d p ts c t r f = Inl ValueError) =
     (p < 1 \<or> d \<notin> {''Monday'', ''Tuesday'', ''Wednesday'', ''Thursday'', ''Friday''})
   \<and> (\<not> (p < 1 \<or> d \<notin> {''Monday'', ''Tuesday'', ''Wednesday'', ''Thursday'', ''Friday''}) \<longrightarrow>
        Gene g d p ts c t r f =
          Inr \<lparr>group_id = g, day = d, period = p, timeslot_id = ts, course_id = c,
               teacher_id = t, room_id = r, is_fixed = f\<rparr>)
   \<and> (\<forall>e. Gene g d p ts c t r f = Inl e \<longrightarrow> e = ValueError)"
  by (auto simp: Gene_def valid_days_def Let_def)

theorem Gene_validation_witness:
  "Gene 1 ''Tuesday'' 2 7 3 4 5 (Some False) =
     Inr \<lparr>group_id = 1, day = ''Tuesday'', period = 2, timeslot_id = 7, course_id = 3,
          teacher_id = 4, room_id = 5, is_fixed = Some False\<rparr>
   \<and> Gene 1 ''Sunday'' 2 7 3 4 5 None = Inl ValueError
   \<and> Gene 1 ''Monday'' 0 7 3 4 5 None = Inl ValueError"
  using Gene_validation [of 1 "''Tuesday''" 2 7 3 4 5 "Some False"]
    Gene_validation [of 1 "''Sunday''" 2 7 3 4 5 None]
    Gene_validation [of 1 "''Monday''" 0 7 3 4 5 None]
  by simp

section \<open>Properties of crossover\<close>

lemma random_randint_range:
  "a \<le> b \<Longrightarrow> \<exists>k r'. random_randint a b r = Inr (k, r') \<and> a \<le> k \<and> k \<le> b"
proof -
  assume ab: "a \<le> b"
  obtain k r' where kr: "rng_next r = (k, r')" by (cases "rng_next r")
  have pos: "0 < nat (b - a + 1)" using ab by simp
  have "k mod nat (b - a + 1) < nat (b - a + 1)" using pos by (rule mod_less_divisor)
  then have "int (k mod nat (b - a + 1)) \<le> b - a" using ab by linarith
  then show ?thesis using ab kr by (simp add: random_randint_def)
qed

text \<open>
  C5. If the first parent has fewer than two genes, crossover returns both parents
  unchanged and raises nothing. Otherwise it raises nothing either, and there is a cut
  index \<open>c\<close> with \<open>1 \<le> c \<le> length - 1\<close> such that each child is the first \<open>c\<close> genes of
  its own parent followed by the genes of the other parent from index \<open>c\<close> on. In every
  case the two children together have as many genes as the two parents.
\<close>

theorem crossover_single_point:
  "(length ind1 < 2 \<longrightarrow> crossover ind1 ind2 r = ((ind1, ind2), None, r))
   \<and> (\<not> length ind1 < 2 \<longrightarrow>
        (\<exists>c r'. 1 \<le> c \<and> c \<le> length ind1 - 1
           \<and> crossover ind1 ind2 r =
               ((take c ind1 @ drop c ind2, take c ind2 @ drop c ind1), None, r')))
   \<and> length (fst (fst (crossover ind1 ind2 r))) + length (snd (fst (crossover ind1 ind2 r)))
       = length ind1 + length ind2"
proof (cases "length ind1 < 2")
  case True
  then show ?thesis by (simp add: crossover_def)
next
  case False
  then have "(1::int) \<le> int (length ind1) - 1" by simp
  from random_randint_range [OF this, of r]
  obtain k r' where k: "random_randint 1 (int (length ind1) - 1) r = Inr (k, r')"
    "1 \<le> k" "k \<le> int (length ind1) - 1" by blast
  have eq: "crossover ind1 ind2 r =
      ((take (nat k) ind1 @ drop (nat k) ind2, take (nat k) ind2 @ drop (nat k) ind1), None, r')"
    using False k by (simp add: crossover_def Let_def)
  have c: "1 \<le> nat k" "nat k \<le> length ind1 - 1" using k by linarith+
  have "nat k \<le> length ind1" using c by linarith
  then have len: "length (take (nat k) ind1 @ drop (nat k) ind2)
      + length (take (nat k) ind2 @ drop (nat k) ind1) = length ind1 + length ind2"
    by (simp add: min_def)
  have total: "length (fst (fst (crossover ind1 ind2 r)))
      + length (snd (fst (crossover ind1 ind2 r))) = length ind1 + length ind2"
    unfolding eq fst_conv snd_conv by (rule len)
  have cut: "\<exists>c r'. 1 \<le> c \<and> c \<le> length ind1 - 1
           \<and> crossover ind1 ind2 r =
               ((take c ind1 @ drop c ind2, take c ind2 @ drop c ind1), None, r')"
    using eq c by blast
  show ?thesis using False cut total by blast
qed

theorem crossover_single_point_witness:
  "length [gene_a] < 2
   \<and> crossover [gene_a] [gene_b] (\<lambda>n. 0) = (([gene_a], [gene_b]), None, (\<lambda>n. 0))
   \<and> \<not> length [gene_a, gene_b, gene_c] < 2
   \<and> (\<exists>c r'. 1 \<le> c \<and> c \<le> length [gene_a, gene_b, gene_c] - 1
         \<and> crossover [gene_a, gene_b, gene_c] [gene_c, gene_c, gene_a] (\<lambda>n. 0) =
             ((take c [gene_a, gene_b, gene_c] @ drop c [gene_c, gene_c, gene_a],
               take c [gene_c, gene_c, gene_a] @ drop c [gene_a, gene_b, gene_c]), None, r'))"
  using crossover_single_point [of "[gene_a]" "[gene_b]" "\<lambda>n. 0"]
    crossover_single_point [of "[gene_a, gene_b, gene_c]" "[gene_c, gene_c, gene_a]" "\<lambda>n. 0"]
  by simp

section \<open>Dictionaries: basic facts\<close>


lemma fst_dict_upd_default:
  "map fst (dict_upd_default k z f d) = (if k \<in> set (map fst d) then map fst d else map fst d @ [k])"
  by (induction d) force+

lemma distinct_dict_upd_default:
  "distinct (map fst d) \<Longrightarrow> distinct (map fst (dict_upd_default k z f d))"
  by (simp add: fst_dict_upd_default)

lemma dict_get_upd_default:
  "dict_get (dict_upd_default k z f d) k' z' =
     (if k' = k then f (dict_get d k z) else dict_get d k' z')"
  by (induction d) (auto simp: dict_get_def)

lemma map_of_upd_default_None:
  "map_of (dict_upd_default k z f d) k' = None \<longleftrightarrow> k' \<noteq> k \<and> map_of d k' = None"
  by (induction d) (auto split: if_splits)

lemma sum_list_dict_values:
  fixes g :: "'v \<Rightarrow> 'n::comm_monoid_add"
  shows "distinct (map fst d) \<Longrightarrow>
    sum_list (map g (dict_values d)) = (\<Sum>k\<in>set (map fst d). g (dict_get d k z))"
proof (induction d)
  case Nil
  then show ?case by (simp add: dict_values_def)
next
  case (Cons p ps)
  obtain k v where p: "p = (k, v)" by (cases p)
  from Cons.prems p have knot: "k \<notin> fst ` set ps" and dps: "distinct (map fst ps)" by auto
  have same: "\<And>k'. k' \<in> fst ` set ps \<Longrightarrow> dict_get (p # ps) k' z = dict_get ps k' z"
    using knot p by (auto simp: dict_get_def)
  have "(\<Sum>k'\<in>fst ` set ps. g (dict_get (p # ps) k' z)) = (\<Sum>k'\<in>fst ` set ps. g (dict_get ps k' z))"
    by (rule sum.cong) (simp_all add: same)
  then show ?case using Cons.IH [OF dps] knot p
    by (simp add: dict_values_def dict_get_def)
qed

lemma excess_penalty_acc:
  "foldl (\<lambda>penalty count. if count > 1 then penalty + 1000 * (count - 1) else penalty) a cs
     = a + sum_list (map (\<lambda>c. if c > 1 then 1000 * (c - 1) else 0) cs)" for a :: int
  by (induction cs arbitrary: a) auto

lemma excess_penalty_sum:
  "excess_penalty cs = sum_list (map (\<lambda>c. if c > 1 then 1000 * (c - 1) else 0) cs)"
  by (simp add: excess_penalty_def excess_penalty_acc)

lemma tally_acc:
  "distinct (map fst d) \<Longrightarrow>
   distinct (map fst (foldl (\<lambda>d x. dict_upd_default (key x) 0 (\<lambda>c. c + 1) d) d xs))
   \<and> set (map fst (foldl (\<lambda>d x. dict_upd_default (key x) 0 (\<lambda>c. c + 1) d) d xs))
        = set (map fst d) \<union> key ` set xs
   \<and> (\<forall>k. dict_get (foldl (\<lambda>d x. dict_upd_default (key x) 0 (\<lambda>c. c + 1) d) d xs) k 0
        = dict_get d k 0 + int (occupancy key xs k))"
proof (induction xs arbitrary: d)
  case Nil
  then show ?case by (simp add: occupancy_def)
next
  case (Cons x xs)
  let ?d = "dict_upd_default (key x) 0 (\<lambda>c. c + 1) d"
  have d1: "distinct (map fst ?d)" using Cons.prems by (rule distinct_dict_upd_default)
  have s1: "set (map fst ?d) = insert (key x) (set (map fst d))"
    by (auto simp: fst_dict_upd_default)
  from Cons.IH [OF d1] s1 show ?case
    by (auto simp: dict_get_upd_default occupancy_def)
qed

lemma tally_props:
  "distinct (map fst (tally key xs))"
  "set (map fst (tally key xs)) = key ` set xs"
  "dict_get (tally key xs) k 0 = int (occupancy key xs k)"
  using tally_acc [of "[]" key xs] by (simp_all add: tally_def dict_get_def)

lemma conflict_formula:
  "real_of_int (excess_penalty (dict_values (tally key xs))) =
     (\<Sum>k\<in>key ` set xs. if occupancy key xs k > 1 then 1000 * (real (occupancy key xs k) - 1) else 0)"
proof -
  have "excess_penalty (dict_values (tally key xs))
      = (\<Sum>k\<in>key ` set xs. (if dict_get (tally key xs) k 0 > 1 then 1000 * (dict_get (tally key xs) k 0 - 1) else 0))"
    unfolding excess_penalty_sum
    using sum_list_dict_values [OF tally_props(1), of "\<lambda>c. if c > 1 then 1000 * (c - 1) else 0" key xs 0]
    using tally_props(2) [of key xs] by simp
  also have "\<dots> = (\<Sum>k\<in>key ` set xs. (if occupancy key xs k > 1 then 1000 * (int (occupancy key xs k) - 1) else 0))"
    by (rule sum.cong) (simp_all add: tally_props(3))
  finally show ?thesis by (simp add: if_distrib [of real_of_int] cong: if_cong)
qed


section \<open>Properties of the hard conflict terms\<close>

lemma occupancy_distinct: "distinct (map key xs) \<Longrightarrow> occupancy key xs k \<le> 1"
proof (induction xs)
  case Nil
  then show ?case by (simp add: occupancy_def)
next
  case (Cons x xs)
  show ?case
  proof (cases "key x = k")
    case True
    with Cons.prems have "k \<notin> key ` set xs" by auto
    then have "filter (\<lambda>x. key x = k) xs = []" by (auto simp: filter_empty_conv)
    with True show ?thesis by (simp add: occupancy_def)
  next
    case False
    with Cons show ?thesis by (simp add: occupancy_def)
  qed
qed

lemma conflict_zero:
  "distinct (map key xs) \<Longrightarrow> real_of_int (excess_penalty (dict_values (tally key xs))) = 0"
proof -
  assume d: "distinct (map key xs)"
  have "\<And>k. \<not> occupancy key xs k > 1" using occupancy_distinct [OF d] by (simp add: not_less)
  then show ?thesis unfolding conflict_formula by simp
qed

lemma conflict_single_pair:
  assumes two: "occupancy key xs k0 = 2"
    and rest: "\<forall>k. k \<noteq> k0 \<longrightarrow> occupancy key xs k \<le> 1"
  shows "real_of_int (excess_penalty (dict_values (tally key xs))) = 1000"
proof -
  have mem: "k0 \<in> key ` set xs"
  proof (rule ccontr)
    assume "k0 \<notin> key ` set xs"
    then have "filter (\<lambda>x. key x = k0) xs = []" by (auto simp: filter_empty_conv)
    with two show False by (simp add: occupancy_def)
  qed
  have "(\<Sum>k\<in>key ` set xs. if occupancy key xs k > 1 then 1000 * (real (occupancy key xs k) - 1) else 0)
      = (\<Sum>k\<in>key ` set xs. if k = k0 then 1000 else (0::real))"
  proof (rule sum.cong)
    fix k assume "k \<in> key ` set xs"
    show "(if occupancy key xs k > 1 then 1000 * (real (occupancy key xs k) - 1) else 0)
        = (if k = k0 then 1000 else (0::real))"
    proof (cases "k = k0")
      case True then show ?thesis using two by simp
    next
      case False
      with rest have "occupancy key xs k \<le> 1" by blast
      with False show ?thesis by simp
    qed
  qed simp
  also have "\<dots> = 1000" using mem by (simp add: sum.delta)
  finally show ?thesis unfolding conflict_formula .
qed

text \<open>
  C4. Each of the three hard conflict terms (teacher, room, group) is the sum, over the
  (resource id, day, period) keys that occur in the chromosome, of \<open>1000 * (count - 1)\<close>
  for the keys that \<open>count > 1\<close> genes share. Hence a term is \<open>0\<close> when no key of its
  resource is shared by two genes, and the teacher term is exactly \<open>1000\<close> when exactly
  two genes share one teacher key and no other teacher key is shared.
\<close>

theorem hard_conflict_terms:
  "penalty_teacher_conflict ind =
     (\<Sum>k\<in>set (map teacher_key ind).
        if occupancy teacher_key ind k > 1
        then 1000 * (real (occupancy teacher_key ind k) - 1) else 0)
   \<and> penalty_room_conflict ind =
     (\<Sum>k\<in>set (map room_key ind).
        if occupancy room_key ind k > 1
        then 1000 * (real (occupancy room_key ind k) - 1) else 0)
   \<and> penalty_group_conflict ind =
     (\<Sum>k\<in>set (map group_key ind).
        if occupancy group_key ind k > 1
        then 1000 * (real (occupancy group_key ind k) - 1) else 0)
   \<and> (distinct (map teacher_key ind) \<longrightarrow> penalty_teacher_conflict ind = 0)
   \<and> (distinct (map room_key ind) \<longrightarrow> penalty_room_conflict ind = 0)
   \<and> (distinct (map group_key ind) \<longrightarrow> penalty_group_conflict ind = 0)
   \<and> (occupancy teacher_key ind k0 = 2 \<and> (\<forall>k. k \<noteq> k0 \<longrightarrow> occupancy teacher_key ind k \<le> 1)
        \<longrightarrow> penalty_teacher_conflict ind = 1000)"
  unfolding penalty_teacher_conflict_def penalty_room_conflict_def penalty_group_conflict_def Let_def
  using conflict_formula [of teacher_key ind] conflict_formula [of room_key ind]
    conflict_formula [of group_key ind]
    conflict_zero [of teacher_key ind] conflict_zero [of room_key ind]
    conflict_zero [of group_key ind] conflict_single_pair [of teacher_key ind k0]
  by simp

theorem hard_conflict_terms_witness:
  "penalty_teacher_conflict [gene_a, gene_b, gene_c] = 1000
   \<and> penalty_room_conflict [gene_a, gene_b, gene_c] = 0
   \<and> penalty_group_conflict [gene_a, gene_b, gene_c] = 0
   \<and> penalty_teacher_conflict [gene_a, gene_c] = 0"
  using hard_conflict_terms [of "[gene_a, gene_b, gene_c]" "(5, ''Monday'', 1)"]
    hard_conflict_terms [of "[gene_a, gene_c]" "(5, ''Monday'', 1)"]
  by (simp add: occupancy_def teacher_key_def room_key_def group_key_def
      gene_a_def gene_b_def gene_c_def)

section \<open>Properties of the teacher time preference term\<close>

lemma count_loop_acc:
  "foldl (\<lambda>penalty x. if P x then penalty + 1 else penalty) a xs
     = a + real (length (filter P xs))" for a :: real
  by (induction xs arbitrary: a) auto

lemma teacher_pref_unknown:
  "\<forall>t\<in>set teachers. t_teacher_id t \<noteq> tid \<Longrightarrow> teacher_pref teachers tid = []"
proof -
  assume "\<forall>t\<in>set teachers. t_teacher_id t \<noteq> tid"
  then have "find (\<lambda>t. t_teacher_id t = tid) teachers = None"
    by (simp add: find_None_iff)
  then show ?thesis by (simp add: teacher_pref_def)
qed

lemma find_distinct_ids:
  "distinct (map f xs) \<Longrightarrow> x \<in> set xs \<Longrightarrow> find (\<lambda>y. f y = f x) xs = Some x"
  by (induction xs) (auto simp: image_iff)

lemma teacher_pref_known:
  "distinct (map t_teacher_id teachers) \<Longrightarrow> t \<in> set teachers \<Longrightarrow>
     teacher_pref teachers (t_teacher_id t) = t_preferred_times t"
  by (simp add: teacher_pref_def find_distinct_ids)

text \<open>
  C8. The teacher time preference penalty is the number of genes whose (day, period) is
  not among the preferred times looked up for the gene's teacher id. The lookup gives
  the preferred times of the teacher with that id (ids being distinct in the list) and
  the empty list for an id that no teacher in the list has, so a gene with such an id is
  always counted.
\<close>

theorem teacher_time_preference_counts:
  "penalty_teacher_time_preference ind teachers =
     real (length (filter (\<lambda>gene. (day gene, period gene)
                             \<notin> set (teacher_pref teachers (teacher_id gene))) ind))
   \<and> (distinct (map t_teacher_id teachers) \<longrightarrow>
        (\<forall>t\<in>set teachers. teacher_pref teachers (t_teacher_id t) = t_preferred_times t))
   \<and> (\<forall>gene. (\<forall>t\<in>set teachers. t_teacher_id t \<noteq> teacher_id gene) \<longrightarrow>
        teacher_pref teachers (teacher_id gene) = []
        \<and> penalty_teacher_time_preference (ind @ [gene]) teachers =
            penalty_teacher_time_preference ind teachers + 1)"
proof -
  have cnt: "\<And>xs. penalty_teacher_time_preference xs teachers =
     real (length (filter (\<lambda>gene. (day gene, period gene)
                             \<notin> set (teacher_pref teachers (teacher_id gene))) xs))"
    unfolding penalty_teacher_time_preference_def by (simp add: count_loop_acc)
  have known: "distinct (map t_teacher_id teachers) \<longrightarrow>
        (\<forall>t\<in>set teachers. teacher_pref teachers (t_teacher_id t) = t_preferred_times t)"
    using teacher_pref_known by blast
  have unknown: "\<forall>gene. (\<forall>t\<in>set teachers. t_teacher_id t \<noteq> teacher_id gene) \<longrightarrow>
        teacher_pref teachers (teacher_id gene) = []
        \<and> penalty_teacher_time_preference (ind @ [gene]) teachers =
            penalty_teacher_time_preference ind teachers + 1"
    by (simp add: cnt teacher_pref_unknown)
  show ?thesis using cnt [of ind] known unknown by blast
qed

theorem teacher_time_preference_counts_witness:
  "penalty_teacher_time_preference [gene_a, gene_c] [teacher_5, teacher_6] = 1
   \<and> distinct (map t_teacher_id [teacher_5, teacher_6])
   \<and> teacher_pref [teacher_5, teacher_6] (t_teacher_id teacher_6) = t_preferred_times teacher_6
   \<and> t_teacher_id teacher_5 \<noteq> teacher_id gene_c
   \<and> teacher_pref [teacher_5] (teacher_id gene_c) = []
   \<and> penalty_teacher_time_preference ([gene_a] @ [gene_c]) [teacher_5] =
        penalty_teacher_time_preference [gene_a] [teacher_5] + 1"
  using teacher_time_preference_counts [of "[gene_a, gene_c]" "[teacher_5, teacher_6]"]
    teacher_time_preference_counts [of "[gene_a]" "[teacher_5]"]
  by (simp add: teacher_pref_def teacher_5_def teacher_6_def gene_a_def gene_c_def)

section \<open>Properties of mutation\<close>

lemma mutate_teacher_frame: "frame g (fst (mutate_teacher teachers indpb g r))"
  by (simp add: mutate_teacher_def frame_def split: prod.splits sum.splits)

lemma mutate_course_frame: "frame g (fst (mutate_course courses indpb g r))"
  by (simp add: mutate_course_def frame_def split: prod.splits sum.splits)

lemma mutate_room_frame: "frame g (fst (mutate_room rooms indpb g r))"
  by (simp add: mutate_room_def frame_def split: prod.splits sum.splits)

lemma mutate_time_frame: "frame g (fst (mutate_time tmap indpb g r))"
  by (simp add: mutate_time_def frame_def split: prod.splits sum.splits option.splits)

lemma and_then_frame:
  "frame g (fst res) \<Longrightarrow> (\<And>g1 r1. frame g1 (fst (f g1 r1))) \<Longrightarrow> frame g (fst (and_then res f))"
  by (cases res) (auto simp: and_then_def frame_def split: option.splits)

lemma mutate_gene_frame: "frame g (fst (mutate_gene teachers rooms courses tmap indpb g r))"
  unfolding mutate_gene_def
  by (intro and_then_frame mutate_teacher_frame mutate_course_frame mutate_room_frame
      mutate_time_frame)

lemma mutation_loop_frame:
  "(\<And>g r. frame g (fst (step g r))) \<Longrightarrow>
     list_all2 frame genes (fst (mutation_loop step genes r))"
proof (induction genes arbitrary: r)
  case Nil
  then show ?case by simp
next
  case (Cons g genes)
  obtain g' e r' where s: "step g r = (g', e, r')" by (cases "step g r")
  have f: "frame g g'" using Cons.prems [of g r] s by simp
  show ?case
  proof (cases e)
    case None
    obtain gs' e2 r2 where l: "mutation_loop step genes r' = (gs', e2, r2)"
      by (cases "mutation_loop step genes r'")
    have "list_all2 frame genes gs'" using Cons.IH [OF Cons.prems, of r'] l by simp
    then show ?thesis using s None l f by simp
  next
    case (Some err)
    have "list_all2 frame genes genes" by (simp add: list_all2_same frame_def)
    then show ?thesis using s Some f by simp
  qed
qed

text \<open>
  C9. Mutation never changes the length of the chromosome, and it leaves the
  \<open>group_id\<close> and the \<open>is_fixed\<close> flag of every gene as they were, whether it returns or
  raises: of the eight fields of a gene only \<open>teacher_id\<close>, \<open>course_id\<close>, \<open>room_id\<close>,
  \<open>day\<close>, \<open>period\<close> and \<open>timeslot_id\<close> can differ afterwards.
\<close>

theorem mutation_frame:
  "length (fst (mutation ind teachers rooms courses timeslots indpb r)) = length ind
   \<and> map group_id (fst (mutation ind teachers rooms courses timeslots indpb r)) = map group_id ind
   \<and> map is_fixed (fst (mutation ind teachers rooms courses timeslots indpb r)) = map is_fixed ind"
proof -
  let ?res = "fst (mutation ind teachers rooms courses timeslots indpb r)"
  have all: "list_all2 frame ind ?res"
    unfolding mutation_def by (rule mutation_loop_frame) (rule mutate_gene_frame)
  then have len: "length ?res = length ind" by (simp add: list_all2_lengthD)
  have "\<And>i. i < length ind \<Longrightarrow> frame (ind ! i) (?res ! i)"
    using all by (simp add: list_all2_nthD)
  then have "map group_id ?res = map group_id ind" "map is_fixed ?res = map is_fixed ind"
    using len by (auto simp: list_eq_iff_nth_eq frame_def)
  with len show ?thesis by simp
qed

section \<open>Properties of the time sub-mutation\<close>

lemma map_of_dict_upd_default:
  "map_of (dict_upd_default k z f d) k' =
     (if k' = k then Some (f (dict_get d k z)) else map_of d k')"
  by (induction d) (auto simp: dict_get_def)

lemma timeslot_map_acc_None:
  "map_of (foldl (\<lambda>d ts. dict_upd_default (ts_day ts, ts_period ts) 0 (\<lambda>_. ts_slot_id ts) d)
             d0 tss) k = None
   \<longleftrightarrow> map_of d0 k = None \<and> (\<forall>ts\<in>set tss. (ts_day ts, ts_period ts) \<noteq> k)"
  by (induction tss arbitrary: d0) (auto simp: map_of_dict_upd_default)

lemma timeslot_map_acc_Some:
  "map_of (foldl (\<lambda>d ts. dict_upd_default (ts_day ts, ts_period ts) 0 (\<lambda>_. ts_slot_id ts) d)
             d0 tss) k = Some s
   \<Longrightarrow> map_of d0 k = Some s \<or> (\<exists>ts\<in>set tss. (ts_day ts, ts_period ts) = k \<and> ts_slot_id ts = s)"
proof (induction tss arbitrary: d0)
  case Nil
  then show ?case by simp
next
  case (Cons t tss)
  from Cons.IH [of "dict_upd_default (ts_day t, ts_period t) 0 (\<lambda>_. ts_slot_id t) d0"] Cons.prems
  show ?case by (auto simp: map_of_dict_upd_default split: if_splits)
qed

lemma timeslot_map_None:
  "map_of (timeslot_map timeslots) (d, p) = None
   \<longleftrightarrow> \<not> (\<exists>ts\<in>set timeslots. ts_day ts = d \<and> ts_period ts = p)"
  unfolding timeslot_map_def by (simp add: timeslot_map_acc_None)

lemma timeslot_map_Some:
  "map_of (timeslot_map timeslots) (d, p) = Some s
   \<Longrightarrow> \<exists>ts\<in>set timeslots. ts_day ts = d \<and> ts_period ts = p \<and> ts_slot_id ts = s"
  unfolding timeslot_map_def using timeslot_map_acc_Some [of "[]" timeslots "(d, p)" s] by auto

lemma random_choice_member:
  "xs \<noteq> [] \<Longrightarrow> \<exists>x r'. random_choice xs r = Inr (x, r') \<and> x \<in> set xs"
  by (simp add: random_choice_def rng_next_def)

text \<open>
  C3 (as amended). When the time sub-mutation fires on a gene (its draw of
  \<^verbatim>\<open>random.random()\<close> is below \<open>indpb\<close>), the gene's new day is one of the five weekdays
  and its new period one of 1, 2, 3, the lists written in \<^verbatim>\<open>mutation\<close> itself, whatever
  the configuration says. The step raises \<^verbatim>\<open>KeyError\<close> (a \<^verbatim>\<open>LookupError\<close>) if and only if
  no timeslot of the catalog has that (day, period), and raises nothing else; when it
  does not raise, the gene's \<open>timeslot_id\<close> is the \<open>slot_id\<close> of a catalog timeslot with
  that (day, period). When the sub-mutation does not fire, the gene is left as it was.
\<close>

theorem mutate_time_fires:
  "case mutate_time (timeslot_map timeslots) indpb gene r of (g', exc, r') \<Rightarrow>
     (fst (random_random r) < indpb \<longrightarrow>
        day g' \<in> {''Monday'', ''Tuesday'', ''Wednesday'', ''Thursday'', ''Friday''}
      \<and> period g' \<in> {1, 2, 3}
      \<and> (exc = Some KeyError \<longleftrightarrow>
           \<not> (\<exists>ts\<in>set timeslots. ts_day ts = day g' \<and> ts_period ts = period g'))
      \<and> (exc = None \<or> exc = Some KeyError)
      \<and> (exc = None \<longrightarrow>
           (\<exists>ts\<in>set timeslots. ts_day ts = day g' \<and> ts_period ts = period g'
              \<and> timeslot_id g' = ts_slot_id ts)))
   \<and> (\<not> fst (random_random r) < indpb \<longrightarrow> g' = gene \<and> exc = None)"
proof -
  obtain u r1 where u: "random_random r = (u, r1)" by (cases "random_random r")
  show ?thesis
  proof (cases "u < indpb")
    case False
    then show ?thesis using u by (simp add: mutate_time_def)
  next
    case True
    have "mutation_days \<noteq> []" by (simp add: mutation_days_def)
    from random_choice_member [OF this, of r1]
    obtain d r2 where d: "random_choice mutation_days r1 = Inr (d, r2)" "d \<in> set mutation_days"
      by blast
    have "mutation_periods \<noteq> []" by (simp add: mutation_periods_def)
    from random_choice_member [OF this, of r2]
    obtain p r3 where p: "random_choice mutation_periods r2 = Inr (p, r3)"
      "p \<in> set mutation_periods" by blast
    have dset: "d \<in> {''Monday'', ''Tuesday'', ''Wednesday'', ''Thursday'', ''Friday''}"
      using d(2) by (simp add: mutation_days_def)
    have pset: "p \<in> {1, 2, 3}" using p(2) by (simp add: mutation_periods_def)
    show ?thesis
    proof (cases "map_of (timeslot_map timeslots) (d, p)")
      case None
      then have res: "mutate_time (timeslot_map timeslots) indpb gene r
          = (gene\<lparr>day := d, period := p\<rparr>, Some KeyError, r3)"
        using u True d(1) p(1) by (simp add: mutate_time_def)
      have no: "\<not> (\<exists>ts\<in>set timeslots. ts_day ts = d \<and> ts_period ts = p)"
        using None by (simp add: timeslot_map_None)
      have fired: "fst (random_random r) < indpb" using u True by simp
      show ?thesis unfolding res using no fired dset pset by simp
    next
      case (Some s)
      then have res: "mutate_time (timeslot_map timeslots) indpb gene r
          = (gene\<lparr>day := d, period := p, timeslot_id := s\<rparr>, None, r3)"
        using u True d(1) p(1) by (simp add: mutate_time_def)
      from timeslot_map_Some [OF Some]
      have ex: "\<exists>ts\<in>set timeslots. ts_day ts = d \<and> ts_period ts = p \<and> ts_slot_id ts = s" .
      have fired: "fst (random_random r) < indpb" using u True by simp
      from ex have ex1: "\<exists>ts\<in>set timeslots. ts_day ts = d \<and> ts_period ts = p"
        and ex2: "\<exists>ts\<in>set timeslots. ts_day ts = d \<and> ts_period ts = p \<and> s = ts_slot_id ts"
        by auto
      show ?thesis unfolding res using ex1 ex2 fired dset pset by simp
    qed
  qed
qed

text \<open>
  The claim as stated fails: under a configuration whose periods per day are 1 and 2,
  a mutation in which only the time sub-mutation fires moves a gene to period 3.
\<close>

theorem mutation_configured_domain_counterexample:
  "DAYS_OF_WEEK two_period_config \<noteq> [] \<and> PERIODS_PER_DAY two_period_config \<noteq> []
   \<and> mutation [gene_a] [teacher_5] [room_1] [course_1] [slot_mon_1, slot_mon_3] (1 / 10)
         tape_time_only
       = ([gene_a\<lparr>period := 3, timeslot_id := 3\<rparr>], None, (\<lambda>n. 0))
   \<and> period (gene_a\<lparr>period := 3, timeslot_id := 3\<rparr>)
         \<notin> set (PERIODS_PER_DAY two_period_config)"
  by (simp add: mutation_def mutate_gene_def and_then_def mutate_teacher_def mutate_course_def
      mutate_room_def mutate_time_def random_random_def random_choice_def rng_next_def
      tape_time_only_def mutation_days_def mutation_periods_def timeslot_map_def
      slot_mon_1_def slot_mon_3_def gene_a_def two_period_config_def dict_get_def)

theorem mutate_time_fires_witness:
  "fst (random_random (\<lambda>n. 2)) < (0.1::real)
   \<and> mutate_time (timeslot_map [slot_mon_1, slot_mon_3]) 0.1 gene_a (\<lambda>n. 2)
       = (gene_a\<lparr>day := ''Wednesday'', period := 3\<rparr>, Some KeyError, (\<lambda>n. 2))
   \<and> \<not> fst (random_random (\<lambda>n. 4503599627370496)) < (0.1::real)
   \<and> fst (random_random (\<lambda>n. 0)) < (0.1::real)
   \<and> fst (mutate_time (timeslot_map [slot_mon_1, slot_mon_3]) 0.1 gene_a (\<lambda>n. 0))
       = gene_a\<lparr>day := ''Monday'', period := 1, timeslot_id := 1\<rparr>"
  using mutate_time_fires [where timeslots = "[slot_mon_1, slot_mon_3]" and indpb = "1/10"
      and gene = gene_a and r = "\<lambda>n. 2"]
    mutate_time_fires [where timeslots = "[slot_mon_1, slot_mon_3]" and indpb = "1/10"
      and gene = gene_a and r = "\<lambda>n. 4503599627370496"]
    mutate_time_fires [where timeslots = "[slot_mon_1, slot_mon_3]" and indpb = "1/10"
      and gene = gene_a and r = "\<lambda>n. 0"]
  by (simp add: mutate_time_def random_random_def random_choice_def rng_next_def
      mutation_days_def mutation_periods_def timeslot_map_def
      slot_mon_1_def slot_mon_3_def gene_a_def)

section \<open>Properties of repair\<close>

lemma min_by_Some: "min_by f xs = Some b \<Longrightarrow> b \<in> set xs"
  by (induction xs arbitrary: b) (auto split: option.splits if_splits)

lemma min_by_not_None: "xs \<noteq> [] \<Longrightarrow> min_by f xs \<noteq> None"
  by (cases xs) (simp_all split: option.splits)

lemma min_by_member: "xs \<noteq> [] \<Longrightarrow> \<exists>b. min_by f xs = Some b \<and> b \<in> set xs"
proof -
  assume ne: "xs \<noteq> []"
  obtain b where b: "min_by f xs = Some b"
    using min_by_not_None [OF ne, of f] by (cases "min_by f xs") simp_all
  from min_by_Some [OF b] b show ?thesis by simp
qed

lemma min_by_load_ok:
  "xs \<noteq> [] \<Longrightarrow> set xs \<subseteq> set ids \<Longrightarrow> covers ids load \<Longrightarrow>
     \<exists>b. min_by_load load xs = Inr b \<and> b \<in> set xs"
proof -
  assume ne: "xs \<noteq> []" and sub: "set xs \<subseteq> set ids" and cov: "covers ids load"
  have "\<not> list_ex (\<lambda>x. map_of load x = None) xs"
    using sub cov by (auto simp: covers_def list_all_iff list_ex_iff)
  moreover obtain b where "min_by (\<lambda>x. dict_get load x 0) xs = Some b" "b \<in> set xs"
    using min_by_member [OF ne] by blast
  ultimately show ?thesis using ne by (simp add: min_by_load_def)
qed

lemma covers_upd: "covers ids load \<Longrightarrow> covers ids (dict_upd_default k z f load)"
  by (simp add: covers_def list_all_iff map_of_dict_upd_default)

lemma init_acc_None:
  "map_of (foldl (\<lambda>d x. dict_upd_default (key x) z (\<lambda>_. z) d) d0 xs) k = None
   \<longleftrightarrow> map_of d0 k = None \<and> (\<forall>x\<in>set xs. key x \<noteq> k)"
  by (induction xs arbitrary: d0) (auto simp: map_of_dict_upd_default)

lemma covers_teacher_load_init: "covers (map t_teacher_id teachers) (teacher_load_init teachers)"
  by (auto simp: covers_def list_all_iff teacher_load_init_def init_acc_None)

lemma covers_room_usage_init: "covers (map r_room_id rooms) (room_usage_init rooms)"
  by (auto simp: covers_def list_all_iff room_usage_init_def init_acc_None)

lemma resolve_teacher_step_ok:
  assumes cov: "covers (map t_teacher_id teachers) load"
  shows "\<exists>g' sched' load'. resolve_teacher_step teachers prefs g (sched, load) = Inr (g', sched', load')
           \<and> covers (map t_teacher_id teachers) load' \<and> only_teacher_room g g'"
proof -
  let ?key = "(day g, period g)"
  let ?sched = "dict_upd_default ?key [] (\<lambda>v. v) sched"
  let ?avail = "map t_teacher_id (filter (\<lambda>t. t_teacher_id t \<notin> set (dict_get ?sched ?key [])) teachers)"
  let ?pref = "filter (\<lambda>tid. ?key \<in> set (dict_get prefs tid [])) ?avail"
  let ?cands = "if ?pref \<noteq> [] then ?pref else ?avail"
  have refl: "only_teacher_room g g" by (simp add: only_teacher_room_def)
  show ?thesis
  proof (cases "teacher_id g \<in> set (dict_get ?sched ?key [])")
    case False
    then have "resolve_teacher_step teachers prefs g (sched, load)
        = Inr (g, dict_upd_default ?key [] (\<lambda>v. v @ [teacher_id g]) ?sched, load)"
      by (simp add: resolve_teacher_step_def Let_def)
    then show ?thesis using cov refl by simp
  next
    case conflict: True
    show ?thesis
    proof (cases "?avail = []")
      case True
      with conflict have "resolve_teacher_step teachers prefs g (sched, load)
          = Inr (g, dict_upd_default ?key [] (\<lambda>v. v @ [teacher_id g]) ?sched, load)"
        by (simp add: resolve_teacher_step_def Let_def)
      then show ?thesis using cov refl by simp
    next
      case False
      then have ne: "?cands \<noteq> []" by auto
      have sub: "set ?cands \<subseteq> set (map t_teacher_id teachers)" by auto
      from min_by_load_ok [OF ne sub cov]
      obtain b where b: "min_by_load load ?cands = Inr b" by blast
      have rel: "only_teacher_room g (g\<lparr>teacher_id := b\<rparr>)"
        by (simp add: only_teacher_room_def)
      from conflict False b have "resolve_teacher_step teachers prefs g (sched, load)
          = Inr (g\<lparr>teacher_id := b\<rparr>, dict_upd_default ?key [] (\<lambda>v. v @ [b]) ?sched,
                 dict_upd_default b 0 (\<lambda>c. c + 1) load)"
        by (simp add: resolve_teacher_step_def Let_def)
      then show ?thesis using cov rel by (simp add: covers_upd)
    qed
  qed
qed

lemma resolve_teacher_loop_ok:
  "covers (map t_teacher_id teachers) (snd st) \<Longrightarrow>
     \<exists>gs'. resolve_teacher_loop teachers prefs genes st = Inr gs'
          \<and> list_all2 only_teacher_room genes gs'"
proof (induction genes arbitrary: st)
  case Nil
  then show ?case by simp
next
  case (Cons g genes)
  obtain sched load where st: "st = (sched, load)" by (cases st)
  with Cons.prems have cov: "covers (map t_teacher_id teachers) load" by simp
  from resolve_teacher_step_ok [OF cov, of prefs g sched]
  obtain g' sched' load' where
    step: "resolve_teacher_step teachers prefs g (sched, load) = Inr (g', sched', load')"
    and cov': "covers (map t_teacher_id teachers) load'" and rel: "only_teacher_room g g'"
    by blast
  from Cons.IH [of "(sched', load')"] cov'
  obtain gs' where rest: "resolve_teacher_loop teachers prefs genes (sched', load') = Inr gs'"
    "list_all2 only_teacher_room genes gs'" by auto
  show ?case using st step rest rel by simp
qed

lemma resolve_room_step_ok:
  assumes cov: "covers (map r_room_id rooms) usage"
  shows "\<exists>g' sched' usage'. resolve_room_step rooms g (sched, usage) = Inr (g', sched', usage')
           \<and> covers (map r_room_id rooms) usage' \<and> only_teacher_room g g'"
proof -
  let ?key = "(day g, period g)"
  let ?sched = "dict_upd_default ?key [] (\<lambda>v. v) sched"
  let ?avail = "map r_room_id (filter (\<lambda>rm. r_room_id rm \<notin> set (dict_get ?sched ?key [])) rooms)"
  have refl: "only_teacher_room g g" by (simp add: only_teacher_room_def)
  show ?thesis
  proof (cases "room_id g \<in> set (dict_get ?sched ?key [])")
    case False
    then have "resolve_room_step rooms g (sched, usage)
        = Inr (g, dict_upd_default ?key [] (\<lambda>v. v @ [room_id g]) ?sched, usage)"
      by (simp add: resolve_room_step_def Let_def)
    then show ?thesis using cov refl by simp
  next
    case conflict: True
    show ?thesis
    proof (cases "?avail = []")
      case True
      with conflict have "resolve_room_step rooms g (sched, usage)
          = Inr (g, dict_upd_default ?key [] (\<lambda>v. v @ [room_id g]) ?sched, usage)"
        by (simp add: resolve_room_step_def Let_def)
      then show ?thesis using cov refl by simp
    next
      case False
      have sub: "set ?avail \<subseteq> set (map r_room_id rooms)" by auto
      from min_by_load_ok [OF False sub cov]
      obtain b where b: "min_by_load usage ?avail = Inr b" by blast
      have rel: "only_teacher_room g (g\<lparr>room_id := b\<rparr>)"
        by (simp add: only_teacher_room_def)
      from conflict False b have "resolve_room_step rooms g (sched, usage)
          = Inr (g\<lparr>room_id := b\<rparr>, dict_upd_default ?key [] (\<lambda>v. v @ [b]) ?sched,
                 dict_upd_default b 0 (\<lambda>c. c + 1) usage)"
        by (simp add: resolve_room_step_def Let_def)
      then show ?thesis using cov rel by (simp add: covers_upd)
    qed
  qed
qed

lemma resolve_room_loop_ok:
  "covers (map r_room_id rooms) (snd st) \<Longrightarrow>
     \<exists>gs'. resolve_room_loop rooms genes st = Inr gs'
          \<and> list_all2 only_teacher_room genes gs'"
proof (induction genes arbitrary: st)
  case Nil
  then show ?case by simp
next
  case (Cons g genes)
  obtain sched usage where st: "st = (sched, usage)" by (cases st)
  with Cons.prems have cov: "covers (map r_room_id rooms) usage" by simp
  from resolve_room_step_ok [OF cov, of g sched]
  obtain g' sched' usage' where
    step: "resolve_room_step rooms g (sched, usage) = Inr (g', sched', usage')"
    and cov': "covers (map r_room_id rooms) usage'" and rel: "only_teacher_room g g'"
    by blast
  from Cons.IH [of "(sched', usage')"] cov'
  obtain gs' where rest: "resolve_room_loop rooms genes (sched', usage') = Inr gs'"
    "list_all2 only_teacher_room genes gs'" by auto
  show ?case using st step rest rel by simp
qed

lemma resolve_group_loop_ok:
  "\<exists>gs' r'. resolve_group_loop genes seen r = Inr (gs', r') \<and> length gs' = length genes
     \<and> (\<forall>i<length genes.
          if map_of seen (group_key (genes ! i)) \<noteq> None
             \<or> group_key (genes ! i) \<in> set (map group_key (take i genes))
          then recoursed (genes ! i) (gs' ! i) else gs' ! i = genes ! i)"
proof (induction genes arbitrary: seen r)
  case Nil
  then show ?case by simp
next
  case (Cons g genes)
  let ?key = "group_key g"
  let ?seen = "dict_upd_default ?key True (\<lambda>_. True) seen"
  have seen': "\<And>k. map_of ?seen k \<noteq> None \<longleftrightarrow> k = ?key \<or> map_of seen k \<noteq> None"
    by (auto simp: map_of_dict_upd_default)
  obtain g' r1 where head:
    "(if map_of seen ?key \<noteq> None
      then (case random_randint 1 3 r of Inl e \<Rightarrow> Inl e
            | Inr (c, r') \<Rightarrow> Inr (g\<lparr>course_id := c\<rparr>, r'))
      else Inr (g, r)) = Inr (g', r1)"
    and g': "if map_of seen ?key \<noteq> None then recoursed g g' else g' = g"
  proof (cases "map_of seen ?key \<noteq> None")
    case True
    have "(1::int) \<le> 3" by simp
    from random_randint_range [OF this, of r]
    obtain c r' where c: "random_randint 1 3 r = Inr (c, r')" "1 \<le> c" "c \<le> 3" by blast
    then have "c \<in> {1, 2, 3}" by auto
    then have "recoursed g (g\<lparr>course_id := c\<rparr>)" by (simp add: recoursed_def)
    with True c(1) that [of "g\<lparr>course_id := c\<rparr>" r'] show ?thesis by simp
  next
    case False
    with that [of g r] show ?thesis by simp
  qed
  from Cons.IH [of ?seen r1]
  obtain gs' r2 where rest: "resolve_group_loop genes ?seen r1 = Inr (gs', r2)"
    "length gs' = length genes"
    and ih: "\<forall>i<length genes.
          if map_of ?seen (group_key (genes ! i)) \<noteq> None
             \<or> group_key (genes ! i) \<in> set (map group_key (take i genes))
          then recoursed (genes ! i) (gs' ! i) else gs' ! i = genes ! i"
    by blast
  have res: "resolve_group_loop (g # genes) seen r = Inr (g' # gs', r2)"
    using head rest(1) by (simp add: Let_def)
  have "\<forall>i<length (g # genes).
          if map_of seen (group_key ((g # genes) ! i)) \<noteq> None
             \<or> group_key ((g # genes) ! i) \<in> set (map group_key (take i (g # genes)))
          then recoursed ((g # genes) ! i) ((g' # gs') ! i) else (g' # gs') ! i = (g # genes) ! i"
  proof (intro allI impI)
    fix i assume i: "i < length (g # genes)"
    show "if map_of seen (group_key ((g # genes) ! i)) \<noteq> None
             \<or> group_key ((g # genes) ! i) \<in> set (map group_key (take i (g # genes)))
          then recoursed ((g # genes) ! i) ((g' # gs') ! i) else (g' # gs') ! i = (g # genes) ! i"
    proof (cases i)
      case 0
      then show ?thesis using g' by simp
    next
      case (Suc j)
      with i have j: "j < length genes" by simp
      from ih j have "if map_of ?seen (group_key (genes ! j)) \<noteq> None
             \<or> group_key (genes ! j) \<in> set (map group_key (take j genes))
          then recoursed (genes ! j) (gs' ! j) else gs' ! j = genes ! j" by blast
      then show ?thesis using Suc seen' [of "group_key (genes ! j)"]
        by (auto split: if_splits)
    qed
  qed
  with res rest(2) show ?case by simp
qed

lemma list_all2_map_eq:
  "list_all2 R xs ys \<Longrightarrow> (\<And>x y. R x y \<Longrightarrow> f x = f y) \<Longrightarrow> map f xs = map f ys"
  by (induction rule: list_all2_induct) auto

lemma only_teacher_room_fields:
  assumes "only_teacher_room g g'"
  shows "group_id g = group_id g'" "day g = day g'" "period g = period g'"
    "timeslot_id g = timeslot_id g'" "course_id g = course_id g'" "group_key g = group_key g'"
proof -
  from assms have e: "g' = g\<lparr>teacher_id := teacher_id g', room_id := room_id g'\<rparr>"
    by (simp add: only_teacher_room_def)
  show "group_id g = group_id g'" by (subst e) simp
  show "day g = day g'" by (subst e) simp
  show "period g = period g'" by (subst e) simp
  show "timeslot_id g = timeslot_id g'" by (subst e) simp
  show "course_id g = course_id g'" by (subst e) simp
  show "group_key g = group_key g'"
    using \<open>group_id g = group_id g'\<close> \<open>day g = day g'\<close> \<open>period g = period g'\<close>
    by (simp add: group_key_def)
qed

lemma only_teacher_room_trans:
  "only_teacher_room a b \<Longrightarrow> only_teacher_room b c \<Longrightarrow> only_teacher_room a c"
proof -
  assume ab: "only_teacher_room a b" and bc: "only_teacher_room b c"
  from bc have "c = b\<lparr>teacher_id := teacher_id c, room_id := room_id c\<rparr>"
    by (simp add: only_teacher_room_def)
  also from ab have "b = a\<lparr>teacher_id := teacher_id b, room_id := room_id b\<rparr>"
    by (simp add: only_teacher_room_def)
  finally have "c = a\<lparr>teacher_id := teacher_id c, room_id := room_id c\<rparr>" by simp
  then show ?thesis by (simp add: only_teacher_room_def)
qed

lemma repair_passes_ok:
  "\<exists>ind2. resolve_teacher_conflicts ind teachers = Inr (fst ind2)
        \<and> resolve_room_conflicts (fst ind2) rooms = Inr (snd ind2)
        \<and> list_all2 only_teacher_room ind (fst ind2)
        \<and> list_all2 only_teacher_room (fst ind2) (snd ind2)"
proof -
  obtain ind1 where p1: "resolve_teacher_conflicts ind teachers = Inr ind1"
    "list_all2 only_teacher_room ind ind1"
    unfolding resolve_teacher_conflicts_def
    using resolve_teacher_loop_ok [of teachers "([], teacher_load_init teachers)"
        "teacher_preferences_init teachers" ind] covers_teacher_load_init [of teachers]
    by auto
  obtain ind2 where p2: "resolve_room_conflicts ind1 rooms = Inr ind2"
    "list_all2 only_teacher_room ind1 ind2"
    unfolding resolve_room_conflicts_def
    using resolve_room_loop_ok [of rooms "([], room_usage_init rooms)" ind1]
      covers_room_usage_init [of rooms]
    by auto
  show ?thesis using p1 p2 by (intro exI [of _ "(ind1, ind2)"]) simp
qed

lemma repair_timetable_ok:
  "\<exists>ind' r'. repair_timetable ind teachers rooms r = Inr (ind', r')
     \<and> length ind' = length ind
     \<and> map group_id ind' = map group_id ind \<and> map day ind' = map day ind
     \<and> map period ind' = map period ind \<and> map timeslot_id ind' = map timeslot_id ind
     \<and> (\<forall>i<length ind.
          if group_key (ind ! i) \<in> set (map group_key (take i ind))
          then course_id (ind' ! i) \<in> {1, 2, 3}
          else course_id (ind' ! i) = course_id (ind ! i))"
proof -
  from repair_passes_ok [of ind teachers rooms]
  obtain ind1 ind2 where p1: "resolve_teacher_conflicts ind teachers = Inr ind1"
    and p2: "resolve_room_conflicts ind1 rooms = Inr ind2"
    and r1: "list_all2 only_teacher_room ind ind1"
    and r2: "list_all2 only_teacher_room ind1 ind2" by auto
  have r12: "list_all2 only_teacher_room ind ind2"
    using r1 r2 only_teacher_room_trans by (rule list_all2_trans [rotated])
  have len2: "length ind2 = length ind" using r12 by (simp add: list_all2_lengthD)
  have keys: "map group_key ind2 = map group_key ind"
    using list_all2_map_eq [OF r12, of group_key] only_teacher_room_fields(6) by auto
  from resolve_group_loop_ok [of ind2 "[]" r]
  obtain ind' r' where p3: "resolve_group_conflicts ind2 r = Inr (ind', r')"
    and len3: "length ind' = length ind2"
    and grp: "\<forall>i<length ind2.
          if group_key (ind2 ! i) \<in> set (map group_key (take i ind2))
          then recoursed (ind2 ! i) (ind' ! i) else ind' ! i = ind2 ! i"
    unfolding resolve_group_conflicts_def by auto
  have rep: "repair_timetable ind teachers rooms r = Inr (ind', r')"
    using p1 p2 p3 by (simp add: repair_timetable_def)
  have step: "\<And>i. i < length ind \<Longrightarrow>
      group_id (ind' ! i) = group_id (ind ! i) \<and> day (ind' ! i) = day (ind ! i)
      \<and> period (ind' ! i) = period (ind ! i) \<and> timeslot_id (ind' ! i) = timeslot_id (ind ! i)
      \<and> (if group_key (ind ! i) \<in> set (map group_key (take i ind))
          then course_id (ind' ! i) \<in> {1, 2, 3}
          else course_id (ind' ! i) = course_id (ind ! i))"
  proof -
    fix i assume i: "i < length ind"
    have otr: "only_teacher_room (ind ! i) (ind2 ! i)" using r12 i by (simp add: list_all2_nthD)
    note f = only_teacher_room_fields [OF otr]
    have k1: "group_key (ind2 ! i) = group_key (ind ! i)" using f(6) by simp
    have k2: "map group_key (take i ind2) = map group_key (take i ind)"
      using keys by (simp add: take_map [symmetric])
    from grp i len2 have gi: "if group_key (ind2 ! i) \<in> set (map group_key (take i ind2))
          then recoursed (ind2 ! i) (ind' ! i) else ind' ! i = ind2 ! i"
      by auto
    then have g: "if group_key (ind ! i) \<in> set (map group_key (take i ind))
          then recoursed (ind2 ! i) (ind' ! i) else ind' ! i = ind2 ! i"
      by (simp only: k1 k2)
    show "group_id (ind' ! i) = group_id (ind ! i) \<and> day (ind' ! i) = day (ind ! i)
      \<and> period (ind' ! i) = period (ind ! i) \<and> timeslot_id (ind' ! i) = timeslot_id (ind ! i)
      \<and> (if group_key (ind ! i) \<in> set (map group_key (take i ind))
          then course_id (ind' ! i) \<in> {1, 2, 3}
          else course_id (ind' ! i) = course_id (ind ! i))"
    proof (cases "group_key (ind ! i) \<in> set (map group_key (take i ind))")
      case True
      with g have rc: "recoursed (ind2 ! i) (ind' ! i)" by simp
      then have e: "ind' ! i = (ind2 ! i)\<lparr>course_id := course_id (ind' ! i)\<rparr>"
        and c: "course_id (ind' ! i) \<in> {1, 2, 3}" by (simp_all add: recoursed_def)
      have "group_id (ind' ! i) = group_id (ind2 ! i)" "day (ind' ! i) = day (ind2 ! i)"
        "period (ind' ! i) = period (ind2 ! i)" "timeslot_id (ind' ! i) = timeslot_id (ind2 ! i)"
        by (subst e, simp)+
      then show ?thesis using True c f by simp
    next
      case False
      with g have "ind' ! i = ind2 ! i" by simp
      then show ?thesis using False f by simp
    qed
  qed
  have len: "length ind' = length ind" using len3 len2 by simp
  have "map group_id ind' = map group_id ind" "map day ind' = map day ind"
    "map period ind' = map period ind" "map timeslot_id ind' = map timeslot_id ind"
    using len step by (simp_all add: list_eq_iff_nth_eq)
  then show ?thesis using rep len step by blast
qed

lemma dict_get_setdefault: "dict_get (dict_upd_default k z (\<lambda>v. v) d) k z = dict_get d k z"
  by (simp add: dict_get_upd_default)

lemma resolve_teacher_step_unresolvable:
  assumes conflict: "teacher_id g \<in> set (dict_get sched (day g, period g) [])"
    and none: "set (map t_teacher_id teachers) \<subseteq> set (dict_get sched (day g, period g) [])"
  shows "\<exists>st'. resolve_teacher_step teachers prefs g (sched, load) = Inr (g, st')"
proof -
  from none have "filter (\<lambda>t. t_teacher_id t \<notin> set (dict_get sched (day g, period g) [])) teachers = []"
    by (auto simp: filter_empty_conv)
  with conflict show ?thesis
    by (simp add: resolve_teacher_step_def Let_def dict_get_setdefault)
qed

lemma resolve_room_step_unresolvable:
  assumes conflict: "room_id g \<in> set (dict_get sched (day g, period g) [])"
    and none: "set (map r_room_id rooms) \<subseteq> set (dict_get sched (day g, period g) [])"
  shows "\<exists>st'. resolve_room_step rooms g (sched, usage) = Inr (g, st')"
proof -
  from none have "filter (\<lambda>rm. r_room_id rm \<notin> set (dict_get sched (day g, period g) [])) rooms = []"
    by (auto simp: filter_empty_conv)
  with conflict show ?thesis
    by (simp add: resolve_room_step_def Let_def dict_get_setdefault)
qed

text \<open>
  C10. Repair never raises: for every chromosome and all teacher and room catalogs
  (non-empty or not) it returns a chromosome. The result has the same length, and every
  gene keeps its \<open>group_id\<close>, \<open>day\<close>, \<open>period\<close> and \<open>timeslot_id\<close>. A gene whose
  (group, day, period) key does not occur earlier in the chromosome keeps its course; a
  gene whose key occurs earlier gets a course in 1..3; the group pass changes nothing
  but that course. A gene in conflict for whose slot every teacher (room) of the catalog
  is already scheduled is left as it is by the teacher (room) step.
\<close>

theorem repair_total:
  "(\<exists>ind' r'. repair_timetable ind teachers rooms r = Inr (ind', r')
      \<and> length ind' = length ind
      \<and> map group_id ind' = map group_id ind \<and> map day ind' = map day ind
      \<and> map period ind' = map period ind \<and> map timeslot_id ind' = map timeslot_id ind
      \<and> (\<forall>i<length ind.
           if group_key (ind ! i) \<in> set (map group_key (take i ind))
           then course_id (ind' ! i) \<in> {1, 2, 3}
           else course_id (ind' ! i) = course_id (ind ! i)))
   \<and> (\<exists>gs' r'. resolve_group_conflicts ind r = Inr (gs', r') \<and> length gs' = length ind
      \<and> (\<forall>i<length ind.
           if group_key (ind ! i) \<in> set (map group_key (take i ind))
           then recoursed (ind ! i) (gs' ! i) else gs' ! i = ind ! i))
   \<and> (teacher_id g \<in> set (dict_get sched (day g, period g) [])
        \<and> set (map t_teacher_id teachers) \<subseteq> set (dict_get sched (day g, period g) [])
      \<longrightarrow> (\<exists>st'. resolve_teacher_step teachers prefs g (sched, load) = Inr (g, st')))
   \<and> (room_id g \<in> set (dict_get sched (day g, period g) [])
        \<and> set (map r_room_id rooms) \<subseteq> set (dict_get sched (day g, period g) [])
      \<longrightarrow> (\<exists>st'. resolve_room_step rooms g (sched, load) = Inr (g, st')))"
proof -
  have grp: "\<exists>gs' r'. resolve_group_conflicts ind r = Inr (gs', r') \<and> length gs' = length ind
      \<and> (\<forall>i<length ind.
           if group_key (ind ! i) \<in> set (map group_key (take i ind))
           then recoursed (ind ! i) (gs' ! i) else gs' ! i = ind ! i)"
    unfolding resolve_group_conflicts_def using resolve_group_loop_ok [of ind "[]" r] by simp
  show ?thesis
    using repair_timetable_ok [of ind teachers rooms r] grp
      resolve_teacher_step_unresolvable [of g sched teachers prefs load]
      resolve_room_step_unresolvable [of g sched rooms load]
    by blast
qed

theorem repair_total_witness:
  "(2 < length [gene_a, gene_b, gene_d]
      \<and> group_key ([gene_a, gene_b, gene_d] ! 2)
            \<in> set (map group_key (take 2 [gene_a, gene_b, gene_d])))
   \<and> (\<exists>ind' r'. repair_timetable [gene_a, gene_b, gene_d] [teacher_5] [room_1] (\<lambda>n. 0)
                    = Inr (ind', r')
         \<and> course_id (ind' ! 2) \<in> {1, 2, 3})
   \<and> (teacher_id gene_b \<in> set (dict_get [((''Monday'', 1), [5])] (day gene_b, period gene_b) [])
      \<and> set (map t_teacher_id [teacher_5])
           \<subseteq> set (dict_get [((''Monday'', 1), [5])] (day gene_b, period gene_b) []))
   \<and> (\<exists>st'. resolve_teacher_step [teacher_5] [] gene_b ([((''Monday'', 1), [5])], [(5, 0)])
               = Inr (gene_b, st'))
   \<and> (room_id gene_b \<in> set (dict_get [((''Monday'', 1), [2])] (day gene_b, period gene_b) [])
      \<and> set (map r_room_id [room_2])
           \<subseteq> set (dict_get [((''Monday'', 1), [2])] (day gene_b, period gene_b) []))
   \<and> (\<exists>st'. resolve_room_step [room_2] gene_b ([((''Monday'', 1), [2])], [(5, 0)])
               = Inr (gene_b, st'))"
proof -
  note t = repair_total [where ind = "[gene_a, gene_b, gene_d]" and teachers = "[teacher_5]"
      and rooms = "[room_1]" and r = "\<lambda>n. 0" and g = gene_b
      and sched = "[((''Monday'', 1), [5])]" and prefs = "[]" and load = "[(5, 0)]"]
  note u = repair_total [where ind = "[gene_a, gene_b, gene_d]" and teachers = "[teacher_5]"
      and rooms = "[room_2]" and r = "\<lambda>n. 0" and g = gene_b
      and sched = "[((''Monday'', 1), [2])]" and prefs = "[]" and load = "[(5, 0)]"]
  have h1: "2 < length [gene_a, gene_b, gene_d]
      \<and> group_key ([gene_a, gene_b, gene_d] ! 2)
            \<in> set (map group_key (take 2 [gene_a, gene_b, gene_d]))"
    by (simp add: group_key_def gene_a_def gene_b_def gene_d_def)
  from t obtain ind' r' where rep:
    "repair_timetable [gene_a, gene_b, gene_d] [teacher_5] [room_1] (\<lambda>n. 0) = Inr (ind', r')"
    and all: "\<forall>i<length [gene_a, gene_b, gene_d].
           if group_key ([gene_a, gene_b, gene_d] ! i)
                \<in> set (map group_key (take i [gene_a, gene_b, gene_d]))
           then course_id (ind' ! i) \<in> {1, 2, 3}
           else course_id (ind' ! i) = course_id ([gene_a, gene_b, gene_d] ! i)"
    by blast
  from all h1 have c2: "course_id (ind' ! 2) \<in> {1, 2, 3}" by (simp only: if_True simp_thms)
  have h2: "teacher_id gene_b \<in> set (dict_get [((''Monday'', 1), [5])] (day gene_b, period gene_b) [])
      \<and> set (map t_teacher_id [teacher_5])
           \<subseteq> set (dict_get [((''Monday'', 1), [5])] (day gene_b, period gene_b) [])"
    by (simp add: dict_get_def gene_b_def teacher_5_def)
  with t have s2: "\<exists>st'. resolve_teacher_step [teacher_5] [] gene_b
       ([((''Monday'', 1), [5])], [(5, 0)]) = Inr (gene_b, st')" by blast
  have h3: "room_id gene_b \<in> set (dict_get [((''Monday'', 1), [2])] (day gene_b, period gene_b) [])
      \<and> set (map r_room_id [room_2])
           \<subseteq> set (dict_get [((''Monday'', 1), [2])] (day gene_b, period gene_b) [])"
    by (simp add: dict_get_def gene_b_def room_2_def)
  with u have s3: "\<exists>st'. resolve_room_step [room_2] gene_b
       ([((''Monday'', 1), [2])], [(5, 0)]) = Inr (gene_b, st')" by blast
  from h1 rep c2 h2 s2 h3 s3 show ?thesis by blast
qed

lemma dict_get_append_entry:
  "dict_get (dict_upd_default k [] (\<lambda>v. v @ [x]) (dict_upd_default k [] (\<lambda>v. v) d)) k' []
     = (if k' = k then dict_get d k [] @ [x] else dict_get d k' [])"
  by (simp add: dict_get_upd_default)

lemma resolve_teacher_loop_fixed:
  "distinct (map teacher_key genes) \<Longrightarrow>
   list_all (\<lambda>g. teacher_id g \<notin> set (dict_get sched (day g, period g) [])) genes \<Longrightarrow>
   resolve_teacher_loop teachers prefs genes (sched, load) = Inr genes"
proof (induction genes arbitrary: sched)
  case Nil
  then show ?case by simp
next
  case (Cons g genes)
  let ?key = "(day g, period g)"
  let ?sched = "dict_upd_default ?key [] (\<lambda>v. v) sched"
  let ?sched' = "dict_upd_default ?key [] (\<lambda>v. v @ [teacher_id g]) ?sched"
  from Cons.prems(2) have free: "teacher_id g \<notin> set (dict_get sched ?key [])" by simp
  then have step: "resolve_teacher_step teachers prefs g (sched, load) = Inr (g, ?sched', load)"
    by (simp add: resolve_teacher_step_def Let_def dict_get_setdefault)
  have "list_all (\<lambda>h. teacher_id h \<notin> set (dict_get ?sched' (day h, period h) [])) genes"
    unfolding list_all_iff
  proof
    fix h assume h: "h \<in> set genes"
    from Cons.prems(2) h have old: "teacher_id h \<notin> set (dict_get sched (day h, period h) [])"
      by (simp add: list_all_iff)
    from Cons.prems(1) have "teacher_key g \<notin> teacher_key ` set genes" by simp
    with h have "teacher_key h \<noteq> teacher_key g" by (metis imageI)
    then have "(day h, period h) = ?key \<longrightarrow> teacher_id h \<noteq> teacher_id g"
      by (auto simp: teacher_key_def)
    with old show "teacher_id h \<notin> set (dict_get ?sched' (day h, period h) [])"
      by (auto simp: dict_get_append_entry)
  qed
  moreover from Cons.prems(1) have "distinct (map teacher_key genes)" by simp
  ultimately have "resolve_teacher_loop teachers prefs genes (?sched', load) = Inr genes"
    by (rule Cons.IH [rotated])
  with step show ?case by simp
qed

lemma resolve_room_loop_fixed:
  "distinct (map room_key genes) \<Longrightarrow>
   list_all (\<lambda>g. room_id g \<notin> set (dict_get sched (day g, period g) [])) genes \<Longrightarrow>
   resolve_room_loop rooms genes (sched, usage) = Inr genes"
proof (induction genes arbitrary: sched)
  case Nil
  then show ?case by simp
next
  case (Cons g genes)
  let ?key = "(day g, period g)"
  let ?sched = "dict_upd_default ?key [] (\<lambda>v. v) sched"
  let ?sched' = "dict_upd_default ?key [] (\<lambda>v. v @ [room_id g]) ?sched"
  from Cons.prems(2) have free: "room_id g \<notin> set (dict_get sched ?key [])" by simp
  then have step: "resolve_room_step rooms g (sched, usage) = Inr (g, ?sched', usage)"
    by (simp add: resolve_room_step_def Let_def dict_get_setdefault)
  have "list_all (\<lambda>h. room_id h \<notin> set (dict_get ?sched' (day h, period h) [])) genes"
    unfolding list_all_iff
  proof
    fix h assume h: "h \<in> set genes"
    from Cons.prems(2) h have old: "room_id h \<notin> set (dict_get sched (day h, period h) [])"
      by (simp add: list_all_iff)
    from Cons.prems(1) have "room_key g \<notin> room_key ` set genes" by simp
    with h have "room_key h \<noteq> room_key g" by (metis imageI)
    then have "(day h, period h) = ?key \<longrightarrow> room_id h \<noteq> room_id g"
      by (auto simp: room_key_def)
    with old show "room_id h \<notin> set (dict_get ?sched' (day h, period h) [])"
      by (auto simp: dict_get_append_entry)
  qed
  moreover from Cons.prems(1) have "distinct (map room_key genes)" by simp
  ultimately have "resolve_room_loop rooms genes (?sched', usage) = Inr genes"
    by (rule Cons.IH [rotated])
  with step show ?case by simp
qed

lemma repair_fixed:
  assumes dt: "distinct (map teacher_key ind)" and dr: "distinct (map room_key ind)"
  shows "\<exists>ind' r'. repair_timetable ind teachers rooms r = Inr (ind', r')
           \<and> map teacher_id ind' = map teacher_id ind \<and> map room_id ind' = map room_id ind"
proof -
  have empty: "\<And>f. list_all (\<lambda>g. f g \<notin> set (dict_get [] (day g, period g) [])) ind"
    by (simp add: dict_get_def list_all_iff)
  have p1: "resolve_teacher_conflicts ind teachers = Inr ind"
    unfolding resolve_teacher_conflicts_def
    using dt empty [of teacher_id] by (rule resolve_teacher_loop_fixed)
  have p2: "resolve_room_conflicts ind rooms = Inr ind"
    unfolding resolve_room_conflicts_def
    using dr empty [of room_id] by (rule resolve_room_loop_fixed)
  from resolve_group_loop_ok [of ind "[]" r]
  obtain ind' r' where p3: "resolve_group_conflicts ind r = Inr (ind', r')"
    and len: "length ind' = length ind"
    and grp: "\<forall>i<length ind.
          if group_key (ind ! i) \<in> set (map group_key (take i ind))
          then recoursed (ind ! i) (ind' ! i) else ind' ! i = ind ! i"
    unfolding resolve_group_conflicts_def by auto
  have same: "\<And>i. i < length ind \<Longrightarrow>
      teacher_id (ind' ! i) = teacher_id (ind ! i) \<and> room_id (ind' ! i) = room_id (ind ! i)"
  proof -
    fix i assume i: "i < length ind"
    show "teacher_id (ind' ! i) = teacher_id (ind ! i) \<and> room_id (ind' ! i) = room_id (ind ! i)"
    proof (cases "group_key (ind ! i) \<in> set (map group_key (take i ind))")
      case True
      with grp i have "recoursed (ind ! i) (ind' ! i)" by simp
      then have e: "ind' ! i = (ind ! i)\<lparr>course_id := course_id (ind' ! i)\<rparr>"
        by (simp add: recoursed_def)
      have "teacher_id (ind' ! i) = teacher_id (ind ! i)" by (subst e) simp
      moreover have "room_id (ind' ! i) = room_id (ind ! i)" by (subst e) simp
      ultimately show ?thesis by simp
    next
      case False
      with grp i have "ind' ! i = ind ! i" by simp
      then show ?thesis by simp
    qed
  qed
  have "map teacher_id ind' = map teacher_id ind" "map room_id ind' = map room_id ind"
    using len same by (simp_all add: list_eq_iff_nth_eq)
  moreover have "repair_timetable ind teachers rooms r = Inr (ind', r')"
    using p1 p2 p3 by (simp add: repair_timetable_def)
  ultimately show ?thesis by blast
qed

text \<open>
  C6. When no (teacher, day, period) key and no (room, day, period) key is shared by two
  genes of a chromosome, repair (which then returns) leaves the \<open>teacher_id\<close> and the
  \<open>room_id\<close> of every gene unchanged. In particular this holds for a chromosome that is
  itself the result of a repair and is free of such duplicates: repairing it again with
  the same catalogs changes no teacher or room assignment.
\<close>

theorem repair_fixed_point:
  "(distinct (map teacher_key ind) \<and> distinct (map room_key ind) \<longrightarrow>
      (\<exists>ind' r'. repair_timetable ind teachers rooms r = Inr (ind', r')
         \<and> map teacher_id ind' = map teacher_id ind \<and> map room_id ind' = map room_id ind))
   \<and> (repair_timetable before teachers rooms seed = Inr (ind, r)
        \<and> distinct (map teacher_key ind) \<and> distinct (map room_key ind) \<longrightarrow>
      (\<exists>ind' r'. repair_timetable ind teachers rooms r = Inr (ind', r')
         \<and> map teacher_id ind' = map teacher_id ind \<and> map room_id ind' = map room_id ind))"
  using repair_fixed [of ind teachers rooms r] by blast

theorem repair_fixed_point_witness:
  "repair_timetable [gene_a, gene_b] [teacher_5, teacher_6] [room_1] (\<lambda>n. 0)
     = Inr ([gene_a, gene_b\<lparr>teacher_id := 6\<rparr>], (\<lambda>n. 0))
   \<and> distinct (map teacher_key [gene_a, gene_b\<lparr>teacher_id := 6\<rparr>])
   \<and> distinct (map room_key [gene_a, gene_b\<lparr>teacher_id := 6\<rparr>])
   \<and> (\<exists>ind' r'. repair_timetable [gene_a, gene_b\<lparr>teacher_id := 6\<rparr>] [teacher_5, teacher_6]
                    [room_1] (\<lambda>n. 0) = Inr (ind', r')
         \<and> map teacher_id ind' = map teacher_id [gene_a, gene_b\<lparr>teacher_id := 6\<rparr>]
         \<and> map room_id ind' = map room_id [gene_a, gene_b\<lparr>teacher_id := 6\<rparr>])"
proof -
  have e: "repair_timetable [gene_a, gene_b] [teacher_5, teacher_6] [room_1] (\<lambda>n. 0)
     = Inr ([gene_a, gene_b\<lparr>teacher_id := 6\<rparr>], (\<lambda>n. 0))"
    by (simp add: repair_timetable_def resolve_teacher_conflicts_def resolve_room_conflicts_def
      resolve_group_conflicts_def resolve_teacher_step_def resolve_room_step_def
      teacher_load_init_def teacher_preferences_init_def room_usage_init_def
      min_by_load_def dict_get_def Let_def group_key_def
      gene_a_def gene_b_def teacher_5_def teacher_6_def room_1_def)
  have d: "distinct (map teacher_key [gene_a, gene_b\<lparr>teacher_id := 6\<rparr>])
      \<and> distinct (map room_key [gene_a, gene_b\<lparr>teacher_id := 6\<rparr>])"
    by (simp add: teacher_key_def room_key_def gene_a_def gene_b_def)
  from repair_fixed_point [where before = "[gene_a, gene_b]" and teachers = "[teacher_5, teacher_6]"
      and rooms = "[room_1]" and seed = "\<lambda>n. 0" and ind = "[gene_a, gene_b\<lparr>teacher_id := 6\<rparr>]"
      and r = "\<lambda>n. 0"] e d
  have "\<exists>ind' r'. repair_timetable [gene_a, gene_b\<lparr>teacher_id := 6\<rparr>] [teacher_5, teacher_6]
                    [room_1] (\<lambda>n. 0) = Inr (ind', r')
         \<and> map teacher_id ind' = map teacher_id [gene_a, gene_b\<lparr>teacher_id := 6\<rparr>]
         \<and> map room_id ind' = map room_id [gene_a, gene_b\<lparr>teacher_id := 6\<rparr>]" by blast
  with e d show ?thesis by blast
qed

section \<open>Properties of the group schedule gap term\<close>



lemma fst_map_values: "map fst (map (\<lambda>(k, v). (k, h v)) d) = map fst d"
  by (induction d) auto

























section \<open>Properties of the total penalty\<close>











lemma example_gap: "penalty_group_schedule_gap [gene_a, gene_f] [group_1] = Inr (- 1 / 2)"
  by (simp add: penalty_group_schedule_gap_def add_gap_def to_timetable_def lessons_gap_def
      int_to_float_def dict_get_def dict_values_def Let_def group_1_def gene_a_def gene_f_def)

text \<open>
  Outside that range the evaluator can raise: with lessons of one group in periods 1 and
  \<open>2^1024\<close> of the same day the gap is \<open>2^1024 - 2\<close>, which Python cannot convert to a
  float.
\<close>

lemma evaluate_timetable_overflow:
  "evaluate_timetable [gene_a, gene_a\<lparr>period := 2 ^ 1024\<rparr>] teachers [group_1]
     = Inl OverflowError"
  by (simp add: evaluate_timetable_def penalty_group_schedule_gap_def add_gap_def
      to_timetable_def lessons_gap_def int_to_float_def dict_get_def dict_values_def Let_def
      group_1_def gene_a_def)


section \<open>The group schedule gap against its specification\<close>

text \<open>
  C2. The claim does not hold of the code: \<^verbatim>\<open>penalty_group_schedule_gap\<close> subtracts
  the number of lessons of the day (\<^verbatim>\<open>len(periods)\<close>), not the number of distinct
  periods. A mutation that moves the second lesson of group 1 to Monday period 1, where
  the group already has a lesson, gives a chromosome on which the code returns \<open>-0.5\<close>
  and the specified sum is \<open>0\<close>.
\<close>

theorem group_schedule_gap_counts_lessons:
  "mutation [gene_a, gene_g] [teacher_5] [room_1] [course_1] [slot_mon_1, slot_mon_3] (1 / 10)
       tape_second_gene = ([gene_a, gene_f], None, (\<lambda>n. 0))
   \<and> penalty_group_schedule_gap [gene_a, gene_f] [group_1] = Inr (- 1 / 2)
   \<and> gap_spec [gene_a, gene_f] [group_1] = 0
   \<and> penalty_group_schedule_gap [gene_a, gene_f] [group_1]
       \<noteq> Inr (gap_spec [gene_a, gene_f] [group_1])"
proof -
  have m: "mutation [gene_a, gene_g] [teacher_5] [room_1] [course_1] [slot_mon_1, slot_mon_3]
      (1 / 10) tape_second_gene = ([gene_a, gene_f], None, (\<lambda>n. 0))"
    by (simp add: mutation_def mutate_gene_def and_then_def mutate_teacher_def mutate_course_def
      mutate_room_def mutate_time_def random_random_def random_choice_def rng_next_def
      tape_second_gene_def mutation_days_def mutation_periods_def timeslot_map_def
      slot_mon_1_def slot_mon_3_def gene_a_def gene_g_def gene_f_def dict_get_def)
  have s: "gap_spec [gene_a, gene_f] [group_1] = 0"
    by (simp add: gap_spec_def Let_def group_1_def gene_a_def gene_f_def)
  from m example_gap s show ?thesis by simp
qed

end
